theory Spec2Isabelle
  imports Main
begin

section \<open>Strings and paths\<close>

text \<open>
  JavaScript strings are modelled as \<open>string\<close> (lists of characters). The program only
  compares, cuts and concatenates them, and every literal it compares against is ASCII.
\<close>

text \<open>\<open>String.prototype.toLowerCase\<close>, on the ASCII letters. A character outside
  \<open>A..Z\<close> is left as it is; no such character lower-cases to a character of
  \<open>.ts\<close> or \<open>.tsx\<close>, so membership in the supported set is decided as in the source.\<close>

definition toLowerCase_char :: "char \<Rightarrow> char" where
  "toLowerCase_char c =
     (case map_of (zip ''ABCDEFGHIJKLMNOPQRSTUVWXYZ'' ''abcdefghijklmnopqrstuvwxyz'') c of
        Some l \<Rightarrow> l
      | None \<Rightarrow> c)"

definition toLowerCase :: "string \<Rightarrow> string" where
  "toLowerCase s = map toLowerCase_char s"

text \<open>\<open>s.startsWith(p)\<close>.\<close>

definition startsWith :: "string \<Rightarrow> string \<Rightarrow> bool" where
  "startsWith s p = (take (length p) s = p)"

text \<open>\<open>s.includes(p)\<close>: \<open>p\<close> starts at some position of \<open>s\<close>.\<close>

fun str_includes :: "string \<Rightarrow> string \<Rightarrow> bool" where
  "str_includes [] p = (p = [])"
| "str_includes (c # cs) p = (startsWith (c # cs) p \<or> str_includes cs p)"

text \<open>\<open>s.slice(0, e)\<close>: a negative end counts from the end of the string, and the
  result is cut to the string's bounds.\<close>

definition slice0 :: "string \<Rightarrow> int \<Rightarrow> string" where
  "slice0 s e =
     take (nat (if e < 0 then max (int (length s) + e) 0 else min e (int (length s)))) s"

text \<open>
  The functions of \<open>node:path\<close>, in their POSIX form. \<open>path.basename\<close> is the last
  component of a path, trailing separators ignored.
\<close>

definition strip_trailing_slashes :: "string \<Rightarrow> string" where
  "strip_trailing_slashes p = rev (dropWhile (\<lambda>c. c = CHR ''/'') (rev p))"

definition basename :: "string \<Rightarrow> string" where
  "basename p = rev (takeWhile (\<lambda>c. c \<noteq> CHR ''/'') (rev (strip_trailing_slashes p)))"

text \<open>
  \<open>path.extname\<close>: from the last dot of the last component to its end; empty when
  the component has no dot, when its only dot is its first character, and when the
  component is \<open>..\<close>.
\<close>

definition extname :: "string \<Rightarrow> string" where
  "extname p =
     (let b = basename p;
          after_dot = rev (takeWhile (\<lambda>c. c \<noteq> CHR ''.'') (rev b));
          upto_dot = rev (dropWhile (\<lambda>c. c \<noteq> CHR ''.'') (rev b))
      in if upto_dot = [] then []
         else if upto_dot = ''.'' then []
         else if b = ''..'' then []
         else CHR ''.'' # after_dot)"

text \<open>
  \<open>path.join(a, b)\<close>: the non-empty arguments joined by a separator, then
  \<open>path.normalize\<close>: empty and \<open>.\<close> segments dropped, \<open>..\<close> cancelling the
  segment before it, a trailing separator kept.
\<close>

fun split_slash :: "string \<Rightarrow> string list" where
  "split_slash [] = [[]]"
| "split_slash (c # cs) =
     (if c = CHR ''/'' then [] # split_slash cs
      else (case split_slash cs of
              [] \<Rightarrow> [[c]]
            | s # ss \<Rightarrow> (c # s) # ss))"

definition normalize_step :: "bool \<Rightarrow> string list \<Rightarrow> string \<Rightarrow> string list" where
  "normalize_step allowAboveRoot acc seg =
     (if seg = [] \<or> seg = ''.'' then acc
      else if seg = ''..'' then
        (if acc \<noteq> [] \<and> last acc \<noteq> ''..'' then butlast acc
         else if allowAboveRoot then acc @ [''..'']
         else acc)
      else acc @ [seg])"

fun join_slash :: "string list \<Rightarrow> string" where
  "join_slash [] = []"
| "join_slash [s] = s"
| "join_slash (s # t # ss) = s @ ''/'' @ join_slash (t # ss)"

definition normalize :: "string \<Rightarrow> string" where
  "normalize p =
     (if p = [] then ''.''
      else
        let isAbsolute = (hd p = CHR ''/'');
            trailingSeparator = (last p = CHR ''/'');
            q = join_slash (foldl (normalize_step (\<not> isAbsolute)) [] (split_slash p))
        in if q = [] then (if isAbsolute then ''/'' else if trailingSeparator then ''./'' else ''.'')
           else (if isAbsolute then ''/'' else []) @ q @ (if trailingSeparator then ''/'' else []))"

definition path_join :: "string \<Rightarrow> string \<Rightarrow> string" where
  "path_join a b =
     (if a = [] \<and> b = [] then ''.''
      else if a = [] then normalize b
      else if b = [] then normalize a
      else normalize (a @ ''/'' @ b))"

section \<open>The world outside the program\<close>

text \<open>
  What the program does to its surroundings is recorded in order: the calls of
  \<open>fs.readFile\<close>, \<open>fs.writeFile\<close>, \<open>fs.unlink\<close> and \<open>fs.readdir\<close>, the call of
  \<open>transformFromAstSync\<close> with its \<open>isTSX\<close> option, the console lines, and
  \<open>process.exit\<close>.
\<close>

datatype event =
    Call_readFile string
  | Call_writeFile string string
  | Call_unlink string
  | Call_readdir string
  | Call_transform string bool
  | Console_log string
  | Console_warn string
  | Console_error string
  | Console_log_params string "string option" bool
  | Process_exit nat

text \<open>
  The file store maps a path to the contents of the regular file there. An operation
  fails when the store has no such file, and also where the world says so (a permission,
  a directory in the way, a full disk): \<open>read_fault\<close>, \<open>write_fault\<close> and
  \<open>unlink_fault\<close> give the message of the error thrown. A failing write may leave a
  partial file behind (the second component of \<open>write_fault\<close>).
\<close>

record world =
  files :: "string \<Rightarrow> string option"
  read_fault :: "string \<Rightarrow> string option"
  write_fault :: "string \<Rightarrow> (string \<times> string option) option"
  unlink_fault :: "string \<Rightarrow> string option"
  trace :: "event list"

definition emit :: "event \<Rightarrow> world \<Rightarrow> world" where
  "emit e w = w\<lparr>trace := trace w @ [e]\<rparr>"

text \<open>No regular file is reached through the empty path or through a path that ends
  in a separator.\<close>

definition names_no_file :: "string \<Rightarrow> bool" where
  "names_no_file p = (p = [] \<or> last p = CHR ''/'')"

definition fs_readFile :: "string \<Rightarrow> world \<Rightarrow> (string + string) \<times> world" where
  "fs_readFile p w =
     (let w1 = emit (Call_readFile p) w in
      if names_no_file p then (Inl ''ENOENT: no such file or directory'', w1)
      else case read_fault w p of
             Some msg \<Rightarrow> (Inl msg, w1)
           | None \<Rightarrow>
               (case files w p of
                  None \<Rightarrow> (Inl ''ENOENT: no such file or directory'', w1)
                | Some c \<Rightarrow> (Inr c, w1)))"

definition fs_writeFile :: "string \<Rightarrow> string \<Rightarrow> world \<Rightarrow> string option \<times> world" where
  "fs_writeFile p c w =
     (let w1 = emit (Call_writeFile p c) w in
      if names_no_file p then (Some ''EISDIR: illegal operation on a directory'', w1)
      else case write_fault w p of
             Some (msg, None) \<Rightarrow> (Some msg, w1)
           | Some (msg, Some partial) \<Rightarrow> (Some msg, w1\<lparr>files := (files w1)(p \<mapsto> partial)\<rparr>)
           | None \<Rightarrow> (None, w1\<lparr>files := (files w1)(p \<mapsto> c)\<rparr>))"

definition fs_unlink :: "string \<Rightarrow> world \<Rightarrow> string option \<times> world" where
  "fs_unlink p w =
     (let w1 = emit (Call_unlink p) w in
      if names_no_file p then (Some ''ENOENT: no such file or directory'', w1)
      else case unlink_fault w p of
             Some msg \<Rightarrow> (Some msg, w1)
           | None \<Rightarrow>
               (case files w p of
                  None \<Rightarrow> (Some ''ENOENT: no such file or directory'', w1)
                | Some c \<Rightarrow> (None, w1\<lparr>files := (files w1)(p := None)\<rparr>)))"

text \<open>
  The transform engine (recast's \<open>parse\<close> and \<open>print\<close>, Babel's
  \<open>transformFromAstSync\<close> with the TypeScript plugin) is not part of the repository: it
  is a parameter. Each of its functions returns its result or the message of the error it
  throws.
\<close>

record 'ast engine =
  recast_parse :: "string \<Rightarrow> string + 'ast"
  transformFromAstSync :: "'ast \<Rightarrow> string \<Rightarrow> bool \<Rightarrow> string + 'ast"
  recast_print :: "'ast \<Rightarrow> string + string"

section \<open>Configuration constants\<close>

definition SUPPORTED_EXTENSIONS :: "string set" where
  "SUPPORTED_EXTENSIONS = {''.ts'', ''.tsx''}"

definition OUTPUT_EXTENSIONS :: "string \<Rightarrow> string option" where
  "OUTPUT_EXTENSIONS = [''.ts'' \<mapsto> ''.js'', ''.tsx'' \<mapsto> ''.jsx'']"

definition IGNORED_DIRS :: "string set" where
  "IGNORED_DIRS = {''node_modules'', ''.git'', ''.vscode'', ''.idea''}"

section \<open>convertTypeScript\<close>

text \<open>The result is the converted code, or \<open>None\<close> for the source's \<open>null\<close>: whatever
  the engine throws is caught and logged.\<close>

definition convertTypeScript :: "'ast engine \<Rightarrow> string \<Rightarrow> world \<Rightarrow> string option \<times> world" where
  "convertTypeScript eng sourceCode w =
     (case recast_parse eng sourceCode of
        Inl msg \<Rightarrow> (None, emit (Console_error (''Conversion error: '' @ msg)) w)
      | Inr ast \<Rightarrow>
          (let isTSX = str_includes sourceCode ''tsx'';
               w1 = emit (Call_transform sourceCode isTSX) w
           in case transformFromAstSync eng ast sourceCode isTSX of
                Inl msg \<Rightarrow> (None, emit (Console_error (''Conversion error: '' @ msg)) w1)
              | Inr transformedAST \<Rightarrow>
                  (case recast_print eng transformedAST of
                     Inl msg \<Rightarrow> (None, emit (Console_error (''Conversion error: '' @ msg)) w1)
                   | Inr code \<Rightarrow> (Some code, w1))))"

section \<open>processFile\<close>

text \<open>\<open>!convertedCode\<close>: \<open>null\<close> and the empty string are falsy.\<close>

definition falsy :: "string option \<Rightarrow> bool" where
  "falsy v = (v = None \<or> v = Some [])"

text \<open>The separator of the success line, byte for byte as the source file has it.\<close>

definition arrow :: string where
  "arrow = map char_of [195, 162, 226, 128, 160, 226, 128, 153 :: nat]"

text \<open>\<open>newExt\<close> and \<open>newPath\<close>. A key that \<open>OUTPUT_EXTENSIONS\<close> does not have
  gives JavaScript's \<open>undefined\<close>, which the concatenation spells out.\<close>

definition newPath_of :: "string \<Rightarrow> string \<Rightarrow> string" where
  "newPath_of filePath ext =
     (let newExt = (case OUTPUT_EXTENSIONS ext of Some e \<Rightarrow> e | None \<Rightarrow> ''undefined'')
      in slice0 filePath (- int (length ext)) @ newExt)"

text \<open>The body of the \<open>try\<close> block: the message of the error thrown, or \<open>None\<close> when
  the block runs to its \<open>return true\<close>.\<close>

definition processFile_try :: "'ast engine \<Rightarrow> string \<Rightarrow> string \<Rightarrow> world \<Rightarrow> string option \<times> world" where
  "processFile_try eng filePath ext w =
     (case fs_readFile filePath w of
        (Inl msg, w1) \<Rightarrow> (Some msg, w1)
      | (Inr sourceCode, w1) \<Rightarrow>
          (case convertTypeScript eng sourceCode w1 of
             (convertedCode, w2) \<Rightarrow>
               if falsy convertedCode then (Some ''Conversion failed'', w2)
               else
                 (let newPath = newPath_of filePath ext
                  in (case fs_writeFile newPath (the convertedCode) w2 of
                        (Some msg, w3) \<Rightarrow> (Some msg, w3)
                      | (None, w3) \<Rightarrow>
                          (case fs_unlink filePath w3 of
                             (Some msg, w4) \<Rightarrow> (Some msg, w4)
                           | (None, w4) \<Rightarrow>
                               (None,
                                emit (Console_log (''Successfully converted: '' @ basename filePath
                                         @ '' '' @ arrow @ '' '' @ basename newPath)) w4))))))"

definition processFile :: "'ast engine \<Rightarrow> string \<Rightarrow> world \<Rightarrow> bool \<times> world" where
  "processFile eng filePath w =
     (let ext = toLowerCase (extname filePath) in
      if ext \<notin> SUPPORTED_EXTENSIONS then
        (False, emit (Console_warn (''Skipping unsupported file type: '' @ filePath)) w)
      else
        case processFile_try eng filePath ext w of
          (None, w1) \<Rightarrow> (True, w1)
        | (Some msg, w1) \<Rightarrow>
            (False, emit (Console_error (''Failed to process file '' @ filePath @ '': '' @ msg)) w1))"

section \<open>convertDirectory\<close>

text \<open>
  A directory entry as \<open>fs.readdir\<close> with \<open>withFileTypes\<close> gives it: its name and its
  kind (\<open>isFile()\<close>, \<open>isDirectory()\<close>, or neither). A directory entry carries what
  \<open>fs.readdir\<close> answers when the walk reaches it: the message of the error thrown, or
  its entries in the order of enumeration. The program creates and removes regular
  files only, and enumerates a directory before it converts any file in it, so these
  answers do not depend on what the walk has done before.
\<close>

datatype dirent =
    FileEnt string
  | OtherEnt string
  | DirEnt string "string + dirent list"

record walk =
  wld :: world
  successCount :: nat
  failureCount :: nat

text \<open>\<open>result ? successCount++ : failureCount++\<close>, for the result of \<open>processFile\<close>
  and the world it leaves.\<close>

definition count_result :: "bool \<times> world \<Rightarrow> walk \<Rightarrow> walk" where
  "count_result rw st =
     (case rw of
        (result, w) \<Rightarrow>
          if result then st\<lparr>wld := w, successCount := successCount st + 1\<rparr>
          else st\<lparr>wld := w, failureCount := failureCount st + 1\<rparr>)"

text \<open>\<open>processDirectory\<close> and the loop over its entries. The \<open>try\<close> block covers
  the enumeration and the loop; nothing in the loop throws (\<open>processFile\<close> catches its
  own errors), so the \<open>catch\<close> is reached from \<open>fs.readdir\<close> only.\<close>

function processDirectory :: "'ast engine \<Rightarrow> string \<Rightarrow> string + dirent list \<Rightarrow> walk \<Rightarrow> walk"
  and processEntries :: "'ast engine \<Rightarrow> string \<Rightarrow> dirent list \<Rightarrow> walk \<Rightarrow> walk"
where
  "processDirectory eng currentDir (Inl msg) st =
     st\<lparr>wld := emit (Console_error (''Failed to read directory '' @ currentDir @ '': '' @ msg))
                  (emit (Call_readdir currentDir) (wld st)),
        failureCount := failureCount st + 1\<rparr>"
| "processDirectory eng currentDir (Inr entries) st =
     processEntries eng currentDir entries (st\<lparr>wld := emit (Call_readdir currentDir) (wld st)\<rparr>)"
| "processEntries eng currentDir [] st = st"
| "processEntries eng currentDir (FileEnt name # entries) st =
     processEntries eng currentDir entries
       (count_result (processFile eng (path_join currentDir name) (wld st)) st)"
| "processEntries eng currentDir (OtherEnt name # entries) st =
     processEntries eng currentDir entries st"
| "processEntries eng currentDir (DirEnt name answer # entries) st =
     processEntries eng currentDir entries
       (if name \<notin> IGNORED_DIRS \<and> \<not> startsWith name ''.''
        then processDirectory eng (path_join currentDir name) answer st
        else st)"
  by pat_completeness auto
termination
  by (relation "measure (\<lambda>x. case x of
          Inl (eng, currentDir, answer, st) \<Rightarrow>
            (case answer of Inl msg \<Rightarrow> 0 | Inr entries \<Rightarrow> size_list size entries + 1)
        | Inr (eng, currentDir, entries, st) \<Rightarrow> size_list size entries)")
    (auto split: sum.splits)

text \<open>\<open>convertDirectory\<close> starts both counters at 0 and returns them after the walk.
  \<open>answer\<close> is what \<open>fs.readdir\<close> gives for \<open>dirPath\<close>.\<close>

definition start_walk :: "world \<Rightarrow> walk" where
  "start_walk w = \<lparr>wld = w, successCount = 0, failureCount = 0\<rparr>"

definition convertDirectory :: "'ast engine \<Rightarrow> string \<Rightarrow> string + dirent list \<Rightarrow> world \<Rightarrow> (nat \<times> nat) \<times> world" where
  "convertDirectory eng dirPath answer w =
     (let st = processDirectory eng dirPath answer (start_walk w)
      in ((successCount st, failureCount st), wld st))"

section \<open>main\<close>

record opts =
  dir :: string
  file_opt :: "string option"
  dryRun :: bool
  verbose :: bool

text \<open>A number in a template literal: its decimal digits.\<close>

definition digit_char :: "nat \<Rightarrow> char" where
  "digit_char d = (''0123456789'' ! d)"

fun show_nat :: "nat \<Rightarrow> string" where
  "show_nat n = (if n < 10 then [digit_char n] else show_nat (n div 10) @ [digit_char (n mod 10)])"

text \<open>\<open>if (file)\<close>: \<open>file_opt\<close> is the \<open>file\<close> option, \<open>None\<close> when it is not
  given; the test holds when it is given and not empty.\<close>

definition truthy :: "string option \<Rightarrow> bool" where
  "truthy v = (case v of None \<Rightarrow> False | Some s \<Rightarrow> s \<noteq> [])"

text \<open>The body of the \<open>try\<close> block of \<open>main\<close>, with the message of the error it
  throws, if any: \<open>processFile\<close> and \<open>convertDirectory\<close> catch their own errors and
  return, so every branch ends without one.\<close>

definition main_try :: "'ast engine \<Rightarrow> opts \<Rightarrow> string + dirent list \<Rightarrow> world \<Rightarrow> string option \<times> world" where
  "main_try eng os answer w =
     (if truthy (file_opt os) then
        (if dryRun os then
           (None, emit (Console_log (''Would convert file: '' @ the (file_opt os))) w)
         else (None, snd (processFile eng (the (file_opt os)) w)))
      else
        (if dryRun os then
           (None, emit (Console_log (''Would scan directory: '' @ dir os)) w)
         else
           (case convertDirectory eng (dir os) answer w of
              ((success, failure), w1) \<Rightarrow>
                (None, emit (Console_log (''Conversion complete! Success: '' @ show_nat success
                                @ '', Failures: '' @ show_nat failure)) w1))))"

text \<open>\<open>main\<close> returns the final world and the exit status of the process: the
  argument of \<open>process.exit\<close>, or 0 when the program runs to its end.\<close>

definition main :: "'ast engine \<Rightarrow> opts \<Rightarrow> string + dirent list \<Rightarrow> world \<Rightarrow> world \<times> nat" where
  "main eng os answer w =
     (let w1 = (if verbose os then emit (Console_log_params (dir os) (file_opt os) (dryRun os)) w else w);
          w2 = (if dryRun os
                then emit (Console_log ''Dry run mode: Only showing what files would be converted'') w1
                else w1)
      in case main_try eng os answer w2 of
           (None, w3) \<Rightarrow> (w3, 0)
         | (Some msg, w3) \<Rightarrow>
             (emit (Process_exit 1) (emit (Console_error (''Error during processing: '' @ msg)) w3), 1))"

section \<open>Observations and examples\<close>

text \<open>What a run added to the trace; the value \<open>convertTypeScript\<close> returns for a
  source text and the events it adds (neither depends on the world, see
  \<open>convertTypeScript_eq\<close>).\<close>

definition new_events :: "world \<Rightarrow> world \<Rightarrow> event list" where
  "new_events w w' = drop (length (trace w)) (trace w')"

definition blank_world :: world where
  "blank_world = \<lparr>files = Map.empty, read_fault = Map.empty, write_fault = Map.empty,
     unlink_fault = Map.empty, trace = []\<rparr>"

definition converted :: "'ast engine \<Rightarrow> string \<Rightarrow> string option" where
  "converted eng sourceCode = fst (convertTypeScript eng sourceCode blank_world)"

definition convert_events :: "'ast engine \<Rightarrow> string \<Rightarrow> event list" where
  "convert_events eng sourceCode = trace (snd (convertTypeScript eng sourceCode blank_world))"

text \<open>An engine for the examples: it rejects a source that contains \<open><<<\<close> and prints
  every other source as it is.\<close>

definition demo_engine :: "string engine" where
  "demo_engine =
     \<lparr>recast_parse = (\<lambda>s. if str_includes s ''<<<'' then Inl ''Unexpected token'' else Inr s),
      transformFromAstSync = (\<lambda>ast sourceCode isTSX. Inr ast),
      recast_print = (\<lambda>ast. Inr ast)\<rparr>"

text \<open>The directory of the specification's scenario: \<open>a.ts\<close>, \<open>b.tsx\<close> and
  \<open>c.json\<close> in \<open>proj\<close>.\<close>

definition demo_world :: world where
  "demo_world =
     blank_world\<lparr>files := [''proj/a.ts'' \<mapsto> ''let a = 1;'',
                           ''proj/b.tsx'' \<mapsto> ''let b = <div/>; // tsx'',
                           ''proj/c.json'' \<mapsto> ''{}'']\<rparr>"

definition demo_entries :: "dirent list" where
  "demo_entries = [FileEnt ''a.ts'', FileEnt ''b.tsx'', FileEnt ''c.json'']"

definition dry_run_opts :: opts where
  "dry_run_opts = \<lparr>dir = ''proj'', file_opt = Some ''proj/a.ts'', dryRun = True, verbose = False\<rparr>"

text \<open>A \<open>.ts\<close> file whose text mentions \<open>tsx\<close>, and a \<open>.tsx\<close> file whose text does
  not.\<close>

definition markup_world :: world where
  "markup_world =
     blank_world\<lparr>files := [''proj/plain.ts'' \<mapsto> ''let s = 1; // not tsx'',
                           ''proj/view.tsx'' \<mapsto> ''let v = 1;'']\<rparr>"

text \<open>An engine whose output shows the \<open>isTSX\<close> option it was given.\<close>

definition marking_engine :: "string engine" where
  "marking_engine =
     \<lparr>recast_parse = (\<lambda>s. Inr s),
      transformFromAstSync =
        (\<lambda>ast sourceCode isTSX. Inr (if isTSX then ''/* markup */ '' @ ast else ast)),
      recast_print = (\<lambda>ast. Inr ast)\<rparr>"

text \<open>Single-file mode on a file that does not exist.\<close>

definition missing_opts :: opts where
  "missing_opts = \<lparr>dir = ''.'', file_opt = Some ''missing.ts'', dryRun = False, verbose = False\<rparr>"

text \<open>A file that the engine cannot parse, and a world where the output path of
  \<open>proj/a.ts\<close> is already taken.\<close>

definition broken_world :: world where
  "broken_world = blank_world\<lparr>files := [''proj/broken.ts'' \<mapsto> ''let <<< = 1;'']\<rparr>"

definition overwrite_world :: world where
  "overwrite_world = demo_world\<lparr>files := (files demo_world)(''proj/a.js'' \<mapsto> ''old text'')\<rparr>"

text \<open>Two walk states have the same store when their worlds differ in the trace only;
  \<open>ahead k st st'\<close>: the same store and successes, and \<open>k\<close> more failures in
  \<open>st'\<close>.\<close>

definition same_store :: "world \<Rightarrow> world \<Rightarrow> bool" where
  "same_store w w' \<longleftrightarrow>
     files w = files w' \<and> read_fault w = read_fault w' \<and> write_fault w = write_fault w'
     \<and> unlink_fault w = unlink_fault w'"

definition ahead :: "nat \<Rightarrow> walk \<Rightarrow> walk \<Rightarrow> bool" where
  "ahead k st st' \<longleftrightarrow>
     successCount st' = successCount st \<and> failureCount st' = failureCount st + k
     \<and> same_store (wld st) (wld st')"

text \<open>A world with a file whose name starts with a dot.\<close>

definition dot_world :: world where
  "dot_world = blank_world\<lparr>files := [''proj/.hidden.ts'' \<mapsto> ''let h = 1;'']\<rparr>"

section \<open>Basic facts\<close>

lemma trace_emit [simp]: "trace (emit e w) = trace w @ [e]"
  and files_emit [simp]: "files (emit e w) = files w"
  and read_fault_emit [simp]: "read_fault (emit e w) = read_fault w"
  and write_fault_emit [simp]: "write_fault (emit e w) = write_fault w"
  and unlink_fault_emit [simp]: "unlink_fault (emit e w) = unlink_fault w"
  by (simp_all add: emit_def)

lemma new_events_append [simp]: "trace w' = trace w @ evs \<Longrightarrow> new_events w w' = evs"
  by (simp add: new_events_def)

lemma convertTypeScript_eq:
  "convertTypeScript eng s w = (converted eng s, w\<lparr>trace := trace w @ convert_events eng s\<rparr>)"
  by (simp add: convertTypeScript_def converted_def convert_events_def blank_world_def emit_def Let_def
      split: sum.splits)

lemma startsWith_iff: "startsWith s p \<longleftrightarrow> (\<exists>v. s = p @ v)"
  unfolding startsWith_def
  by (metis append_eq_conv_conj append_take_drop_id)

lemma str_includes_iff: "str_includes s p \<longleftrightarrow> (\<exists>u v. s = u @ p @ v)"
proof (induction s)
  case Nil
  then show ?case by simp
next
  case (Cons c cs)
  show ?case
  proof
    assume "str_includes (c # cs) p"
    then consider "startsWith (c # cs) p" | "str_includes cs p" by auto
    then show "\<exists>u v. c # cs = u @ p @ v"
    proof cases
      case 1
      then obtain v where "c # cs = p @ v" by (auto simp: startsWith_iff)
      then have "c # cs = [] @ p @ v" by simp
      then show ?thesis by blast
    next
      case 2
      then obtain u v where "cs = u @ p @ v" using Cons.IH by auto
      then have "c # cs = (c # u) @ p @ v" by simp
      then show ?thesis by blast
    qed
  next
    assume "\<exists>u v. c # cs = u @ p @ v"
    then obtain u v where uv: "c # cs = u @ p @ v" by blast
    show "str_includes (c # cs) p"
    proof (cases u)
      case Nil
      with uv have "startsWith (c # cs) p" by (auto simp: startsWith_iff)
      then show ?thesis by simp
    next
      case (Cons a u')
      with uv have "cs = u' @ p @ v" by simp
      then have "str_includes cs p" using Cons.IH by blast
      then show ?thesis by simp
    qed
  qed
qed

lemma convert_events_parsed:
  "recast_parse eng s = Inr ast \<Longrightarrow>
   \<exists>evs. convert_events eng s = Call_transform s (str_includes s ''tsx'') # evs
     \<and> (\<forall>t b. Call_transform t b \<notin> set evs)"
  by (auto simp: convert_events_def convertTypeScript_def blank_world_def Let_def split: sum.splits)

lemma convert_events_converted:
  "converted eng s = Some code \<Longrightarrow>
   convert_events eng s = [Call_transform s (str_includes s ''tsx'')]"
  by (auto simp: converted_def convert_events_def convertTypeScript_def blank_world_def Let_def split: sum.splits)

lemma fs_readFile_eq: "fs_readFile p w = (fst (fs_readFile p w), emit (Call_readFile p) w)"
  by (simp add: fs_readFile_def Let_def split: option.splits)

lemma fs_readFile_fst_emit: "fst (fs_readFile p (emit e w)) = fst (fs_readFile p w)"
  by (simp add: fs_readFile_def Let_def split: option.splits)

lemma processFile_read_fails:
  assumes "toLowerCase (extname f) \<in> SUPPORTED_EXTENSIONS"
    and "fst (fs_readFile f w) = Inl msg"
  shows "processFile eng f w =
           (False, emit (Console_error (''Failed to process file '' @ f @ '': '' @ msg))
                     (emit (Call_readFile f) w))"
proof -
  have "fs_readFile f w = (Inl msg, emit (Call_readFile f) w)"
    using assms(2) fs_readFile_eq [of f w] by simp
  then have "processFile_try eng f (toLowerCase (extname f)) w = (Some msg, emit (Call_readFile f) w)"
    by (simp add: processFile_try_def)
  then show ?thesis
    using assms(1) by (simp add: processFile_def)
qed

lemma processFile_unsupported:
  "toLowerCase (extname p) \<notin> SUPPORTED_EXTENSIONS \<Longrightarrow>
   processFile eng p w = (False, emit (Console_warn (''Skipping unsupported file type: '' @ p)) w)"
  by (simp add: processFile_def)

section \<open>Paths and extensions\<close>

lemma strip_trailing_slashes_id: "\<not> names_no_file p \<Longrightarrow> strip_trailing_slashes p = p"
proof -
  assume "\<not> names_no_file p"
  then have ne: "p \<noteq> []" and l: "last p \<noteq> CHR ''/''"
    by (simp_all add: names_no_file_def)
  from ne obtain xs x where p: "p = xs @ [x]" by (metis rev_exhaust)
  with l have "x \<noteq> CHR ''/''" by simp
  then show ?thesis
    by (simp add: strip_trailing_slashes_def p)
qed

lemma basename_suffix: "\<exists>d. strip_trailing_slashes p = d @ basename p"
proof -
  let ?q = "strip_trailing_slashes p"
  let ?P = "\<lambda>c. c \<noteq> CHR ''/''"
  have "rev ?q = takeWhile ?P (rev ?q) @ dropWhile ?P (rev ?q)" by simp
  then have "?q = rev (dropWhile ?P (rev ?q)) @ rev (takeWhile ?P (rev ?q))"
    by (metis rev_append rev_rev_ident)
  then show ?thesis unfolding basename_def by blast
qed

lemma extname_suffix_basename: "\<exists>d. basename p = d @ extname p"
proof -
  let ?b = "basename p"
  let ?P = "\<lambda>c. c \<noteq> CHR ''.''"
  let ?dw = "dropWhile ?P (rev ?b)"
  show ?thesis
  proof (cases "extname p = []")
    case True
    then show ?thesis by simp
  next
    case False
    then have ne: "?dw \<noteq> []" and ext: "extname p = CHR ''.'' # rev (takeWhile ?P (rev ?b))"
      by (auto simp: extname_def Let_def split: if_splits)
    from ne have "\<not> ?P (hd ?dw)" by (rule hd_dropWhile)
    then have "?dw = CHR ''.'' # tl ?dw" using ne by (cases ?dw) auto
    then have "rev ?dw = rev (tl ?dw) @ ''.''" by (metis rev.simps(2))
    moreover have "?b = rev ?dw @ rev (takeWhile ?P (rev ?b))"
      by (metis rev_append rev_rev_ident takeWhile_dropWhile_id)
    ultimately have "?b = rev (tl ?dw) @ extname p" using ext by simp
    then show ?thesis by blast
  qed
qed

lemma extname_suffix: "\<not> names_no_file p \<Longrightarrow> \<exists>stem. p = stem @ extname p"
  using strip_trailing_slashes_id [of p] basename_suffix [of p] extname_suffix_basename [of p]
  by (metis append.assoc)

lemma length_toLowerCase [simp]: "length (toLowerCase s) = length s"
  by (simp add: toLowerCase_def)

lemma supported_cases:
  "ext \<in> SUPPORTED_EXTENSIONS \<Longrightarrow>
   (ext = ''.ts'' \<and> OUTPUT_EXTENSIONS ext = Some ''.js'') \<or>
   (ext = ''.tsx'' \<and> OUTPUT_EXTENSIONS ext = Some ''.jsx'')"
  by (auto simp: SUPPORTED_EXTENSIONS_def OUTPUT_EXTENSIONS_def)

lemma supported_nonempty: "e \<in> SUPPORTED_EXTENSIONS \<Longrightarrow> 0 < length e"
  by (auto simp: SUPPORTED_EXTENSIONS_def)

lemma newPath_of_stem:
  assumes "toLowerCase (extname p) \<in> SUPPORTED_EXTENSIONS" and "p = stem @ extname p"
  shows "newPath_of p (toLowerCase (extname p)) =
           stem @ (if toLowerCase (extname p) = ''.ts'' then ''.js'' else ''.jsx'')"
proof -
  let ?ext = "toLowerCase (extname p)"
  have len: "length (extname p) = length ?ext" by simp
  have pos: "0 < length ?ext" using assms(1) by (rule supported_nonempty)
  have "length p = length stem + length ?ext" using assms(2) len by (metis length_append)
  then have "slice0 p (- int (length ?ext)) = take (length stem) p"
    using pos by (simp add: slice0_def)
  also have "\<dots> = stem" using assms(2) by (metis append_eq_conv_conj)
  finally show ?thesis
    using supported_cases [OF assms(1)] by (auto simp: newPath_of_def)
qed

lemma newPath_of_neq:
  assumes "toLowerCase (extname p) \<in> SUPPORTED_EXTENSIONS" and "p = stem @ extname p"
  shows "newPath_of p (toLowerCase (extname p)) \<noteq> p"
proof
  let ?ext = "toLowerCase (extname p)"
  assume eq: "newPath_of p ?ext = p"
  then have "stem @ (if ?ext = ''.ts'' then ''.js'' else ''.jsx'') = stem @ extname p"
    using newPath_of_stem [OF assms] assms(2) by simp
  then have "extname p = (if ?ext = ''.ts'' then ''.js'' else ''.jsx'')" by simp
  then have "?ext = toLowerCase (if ?ext = ''.ts'' then ''.js'' else ''.jsx'')" by simp
  then show False
    using supported_cases [OF assms(1)]
    by (auto simp: toLowerCase_def toLowerCase_char_def split: if_splits)
qed

section \<open>Runs of processFile\<close>

lemma convert_events_kinds:
  "e \<in> set (convert_events eng s) \<Longrightarrow> (\<exists>t b. e = Call_transform t b) \<or> (\<exists>m. e = Console_error m)"
  by (auto simp: convert_events_def convertTypeScript_def blank_world_def Let_def split: sum.splits)

lemma convert_events_no_fs [simp]:
  "Call_writeFile q c \<notin> set (convert_events eng s)" "Call_unlink q \<notin> set (convert_events eng s)"
  using convert_events_kinds [of _ eng s] by blast+

lemma processFile_success:
  assumes sup: "toLowerCase (extname p) \<in> SUPPORTED_EXTENSIONS"
    and nf: "\<not> names_no_file p" and rf: "read_fault w p = None" and f: "files w p = Some src"
    and cv: "converted eng src = Some code" and ne: "code \<noteq> []"
    and wf: "write_fault w (newPath_of p (toLowerCase (extname p))) = None"
    and uf: "unlink_fault w p = None"
  shows "processFile eng p w =
    (True, w\<lparr>files := (files w)(newPath_of p (toLowerCase (extname p)) \<mapsto> code, p := None),
             trace := trace w @
               [Call_readFile p, Call_transform src (str_includes src ''tsx''),
                Call_writeFile (newPath_of p (toLowerCase (extname p))) code, Call_unlink p,
                Console_log (''Successfully converted: '' @ basename p @ '' '' @ arrow @ '' ''
                  @ basename (newPath_of p (toLowerCase (extname p))))]\<rparr>)"
proof -
  let ?np = "newPath_of p (toLowerCase (extname p))"
  obtain stem where st: "p = stem @ extname p" using extname_suffix [OF nf] by blast
  have np: "?np = stem @ (if toLowerCase (extname p) = ''.ts'' then ''.js'' else ''.jsx'')"
    using newPath_of_stem [OF sup st] .
  have nnp: "\<not> names_no_file ?np" by (simp add: np names_no_file_def)
  have neq: "?np \<noteq> p" using newPath_of_neq [OF sup st] .
  have nfal: "\<not> falsy (Some code)" using ne by (simp add: falsy_def)
  have "processFile_try eng p (toLowerCase (extname p)) w =
    (None, w\<lparr>files := (files w)(?np \<mapsto> code, p := None),
             trace := trace w @
               [Call_readFile p, Call_transform src (str_includes src ''tsx''),
                Call_writeFile ?np code, Call_unlink p,
                Console_log (''Successfully converted: '' @ basename p @ '' '' @ arrow @ '' ''
                  @ basename ?np)]\<rparr>)"
    using nf rf f cv nfal wf uf nnp neq
    by (simp add: processFile_try_def fs_readFile_def fs_writeFile_def fs_unlink_def
        convertTypeScript_eq convert_events_converted [OF cv] emit_def Let_def)
  then show ?thesis using sup by (simp add: processFile_def Let_def)
qed

lemma processFile_pre_write_failure:
  assumes "toLowerCase (extname p) \<notin> SUPPORTED_EXTENSIONS
           \<or> (\<exists>msg. fst (fs_readFile p w) = Inl msg)
           \<or> (\<exists>src. fst (fs_readFile p w) = Inr src \<and> falsy (converted eng src))"
  shows "\<not> fst (processFile eng p w) \<and> files (snd (processFile eng p w)) = files w
         \<and> (\<forall>q c. Call_writeFile q c \<notin> set (new_events w (snd (processFile eng p w))))
         \<and> (\<forall>q. Call_unlink q \<notin> set (new_events w (snd (processFile eng p w))))"
  using assms
  by (auto simp: processFile_def processFile_try_def fs_readFile_def
      convertTypeScript_eq new_events_def Let_def
      split: option.splits sum.splits prod.splits if_splits)

lemma fs_readFile_Inr:
  "fst (fs_readFile p w) = Inr src \<longleftrightarrow>
     \<not> names_no_file p \<and> read_fault w p = None \<and> files w p = Some src"
  by (auto simp: fs_readFile_def Let_def split: option.splits)

lemma processFile_unlink_reached:
  assumes "Call_unlink q \<in> set (new_events w (snd (processFile eng p w)))"
  shows "q = p \<and> toLowerCase (extname p) \<in> SUPPORTED_EXTENSIONS \<and> \<not> names_no_file p
     \<and> write_fault w (newPath_of p (toLowerCase (extname p))) = None
     \<and> (\<exists>src c e. files w p = Some src \<and> converted eng src = Some c \<and> c \<noteq> []
          \<and> new_events w (snd (processFile eng p w)) =
              [Call_readFile p, Call_transform src (str_includes src ''tsx'')]
              @ [Call_writeFile (newPath_of p (toLowerCase (extname p))) c, Call_unlink p] @ [e]
          \<and> (\<forall>q'. e \<noteq> Call_unlink q')
          \<and> files (snd (processFile eng p w)) =
               (if fst (processFile eng p w)
                then (files w)(newPath_of p (toLowerCase (extname p)) \<mapsto> c, p := None)
                else (files w)(newPath_of p (toLowerCase (extname p)) \<mapsto> c)))"
proof -
  let ?np = "newPath_of p (toLowerCase (extname p))"
  have pre: "\<not> (toLowerCase (extname p) \<notin> SUPPORTED_EXTENSIONS
           \<or> (\<exists>msg. fst (fs_readFile p w) = Inl msg)
           \<or> (\<exists>src. fst (fs_readFile p w) = Inr src \<and> falsy (converted eng src)))"
    using processFile_pre_write_failure [of p w eng] assms by blast
  then have sup: "toLowerCase (extname p) \<in> SUPPORTED_EXTENSIONS" by blast
  from pre obtain src where rd: "fst (fs_readFile p w) = Inr src"
    by (cases "fst (fs_readFile p w)") auto
  with pre have nf: "\<not> falsy (converted eng src)" by blast
  then obtain c where cv: "converted eng src = Some c" and ne: "c \<noteq> []"
    by (auto simp: falsy_def)
  from rd have nn: "\<not> names_no_file p" and rf: "read_fault w p = None" and f: "files w p = Some src"
    by (simp_all add: fs_readFile_Inr)
  have ce: "convert_events eng src = [Call_transform src (str_includes src ''tsx'')]"
    using cv by (rule convert_events_converted)
  have body: "processFile_try eng p (toLowerCase (extname p)) w =
      (case fs_writeFile ?np c (w\<lparr>trace := trace w @ [Call_readFile p, Call_transform src (str_includes src ''tsx'')]\<rparr>) of
         (Some msg, w3) \<Rightarrow> (Some msg, w3)
       | (None, w3) \<Rightarrow>
           (case fs_unlink p w3 of
              (Some msg, w4) \<Rightarrow> (Some msg, w4)
            | (None, w4) \<Rightarrow>
                (None, emit (Console_log (''Successfully converted: '' @ basename p
                                         @ '' '' @ arrow @ '' '' @ basename ?np)) w4)))"
    using nn rf f nf
    by (simp add: processFile_try_def fs_readFile_def convertTypeScript_eq cv ce emit_def Let_def)
  have wf: "write_fault w ?np = None \<and> \<not> names_no_file ?np"
    using assms sup
    by (auto simp: processFile_def body fs_writeFile_def new_events_def Let_def
        split: option.splits prod.splits if_splits)
  then have wr: "fs_writeFile ?np c (w\<lparr>trace := trace w @ [Call_readFile p, Call_transform src (str_includes src ''tsx'')]\<rparr>)
     = (None, w\<lparr>files := (files w)(?np \<mapsto> c),
                 trace := trace w @ [Call_readFile p, Call_transform src (str_includes src ''tsx''),
                    Call_writeFile ?np c]\<rparr>)"
    by (simp add: fs_writeFile_def emit_def Let_def)
  have "q = p \<and> (\<exists>e. new_events w (snd (processFile eng p w)) =
              [Call_readFile p, Call_transform src (str_includes src ''tsx'')]
              @ [Call_writeFile ?np c, Call_unlink p] @ [e]
          \<and> (\<forall>q'. e \<noteq> Call_unlink q')
          \<and> files (snd (processFile eng p w)) =
               (if fst (processFile eng p w)
                then (files w)(?np \<mapsto> c, p := None)
                else (files w)(?np \<mapsto> c)))"
    using assms sup
    by (auto simp: processFile_def body wr fs_unlink_def new_events_def Let_def
        split: option.splits prod.splits if_splits)
  with sup nn wf f cv ne show ?thesis by blast
qed

lemma processFile_failure_keeps_original:
  assumes "\<not> fst (processFile eng p w)"
  shows "files (snd (processFile eng p w)) p = files w p"
proof (cases "toLowerCase (extname p) \<in> SUPPORTED_EXTENSIONS \<and> \<not> names_no_file p")
  case True
  then obtain stem where "p = stem @ extname p" using extname_suffix by blast
  with True have "newPath_of p (toLowerCase (extname p)) \<noteq> p" using newPath_of_neq by blast
  then show ?thesis
    using assms
    by (auto simp: processFile_def processFile_try_def fs_readFile_def fs_writeFile_def fs_unlink_def
      convertTypeScript_eq Let_def
      split: option.splits sum.splits prod.splits if_splits)
next
  case False
  then show ?thesis
    by (auto simp: processFile_def processFile_try_def fs_readFile_def
      convertTypeScript_eq Let_def
      split: option.splits sum.splits prod.splits if_splits)
qed

lemma demo_run:
  "processFile demo_engine ''proj/a.ts'' demo_world =
    (True, demo_world\<lparr>files := (files demo_world)(''proj/a.js'' \<mapsto> ''let a = 1;'', ''proj/a.ts'' := None),
             trace := 
               [Call_readFile ''proj/a.ts'', Call_transform ''let a = 1;'' False,
                Call_writeFile ''proj/a.js'' ''let a = 1;'', Call_unlink ''proj/a.ts'',
                Console_log (''Successfully converted: a.ts '' @ arrow @ '' a.js'')]\<rparr>)"
proof -
  have e: "toLowerCase (extname ''proj/a.ts'') = ''.ts''" by code_simp
  have h1: "toLowerCase (extname ''proj/a.ts'') \<in> SUPPORTED_EXTENSIONS" by code_simp
  have h2: "\<not> names_no_file ''proj/a.ts''" by (simp add: names_no_file_def)
  have h3: "read_fault demo_world ''proj/a.ts'' = None" by (simp add: demo_world_def blank_world_def)
  have h4: "files demo_world ''proj/a.ts'' = Some ''let a = 1;''" by (simp add: demo_world_def blank_world_def)
  have h5: "converted demo_engine ''let a = 1;'' = Some ''let a = 1;''" by code_simp
  have h6: "''let a = 1;'' \<noteq> []" by simp
  have np: "newPath_of ''proj/a.ts'' ''.ts'' = ''proj/a.js''" by code_simp
  have h7: "write_fault demo_world (newPath_of ''proj/a.ts'' (toLowerCase (extname ''proj/a.ts''))) = None"
    by (simp add: demo_world_def blank_world_def)
  have h8: "unlink_fault demo_world ''proj/a.ts'' = None" by (simp add: demo_world_def blank_world_def)
  have b1: "basename ''proj/a.ts'' = ''a.ts''" and b2: "basename ''proj/a.js'' = ''a.js''" by code_simp+
  have s: "str_includes ''let a = 1;'' ''tsx'' = False" by code_simp
  show ?thesis
    using processFile_success [OF h1 h2 h3 h4 h5 h6 h7 h8]
    unfolding e np b1 b2 s by (simp add: demo_world_def blank_world_def)
qed

lemma convertTypeScript_parsed:
  assumes "recast_parse eng sourceCode = Inr ast"
  shows "fst (convertTypeScript eng sourceCode w) =
     (case transformFromAstSync eng ast sourceCode (str_includes sourceCode ''tsx'') of
        Inl msg \<Rightarrow> None
      | Inr transformedAST \<Rightarrow>
          (case recast_print eng transformedAST of Inl msg \<Rightarrow> None | Inr code \<Rightarrow> Some code))"
  using assms by (simp add: convertTypeScript_def Let_def split: sum.splits)

lemma processFile_write_event:
  assumes "toLowerCase (extname p) \<in> SUPPORTED_EXTENSIONS"
    and "\<not> names_no_file p" and "read_fault w p = None" and "files w p = Some src"
  shows "Call_writeFile q c \<in> set (new_events w (snd (processFile eng p w)))
         \<longleftrightarrow> q = newPath_of p (toLowerCase (extname p)) \<and> c \<noteq> [] \<and> converted eng src = Some c"
  using assms
  by (auto simp: processFile_def processFile_try_def fs_readFile_def fs_writeFile_def fs_unlink_def
      convertTypeScript_eq new_events_def Let_def falsy_def
      split: option.splits sum.splits prod.splits if_splits)

section \<open>Runs of the walk\<close>

lemma same_store_retrace: "same_store w w' \<Longrightarrow> w' = w\<lparr>trace := trace w'\<rparr>"
  by (simp add: same_store_def)

lemma same_store_emit [simp]: "same_store (emit e w) w' = same_store w w'"
  "same_store w (emit e w') = same_store w w'"
  by (simp_all add: same_store_def)

lemma same_store_refl [simp]: "same_store w w"
  by (simp add: same_store_def)

lemma processFile_retrace:
  "fst (processFile eng p (w\<lparr>trace := t\<rparr>)) = fst (processFile eng p w) \<and>
   same_store (snd (processFile eng p w)) (snd (processFile eng p (w\<lparr>trace := t\<rparr>)))"
  by (auto simp: processFile_def processFile_try_def fs_readFile_def fs_writeFile_def fs_unlink_def
      convertTypeScript_eq Let_def same_store_def emit_def
      split: option.splits sum.splits prod.splits if_splits)

lemma processFile_same_store:
  assumes "same_store w w'"
  shows "fst (processFile eng p w') = fst (processFile eng p w)"
    and "same_store (snd (processFile eng p w)) (snd (processFile eng p w'))"
  using processFile_retrace [where eng = eng and p = p and w = w and t = "trace w'"]
    same_store_retrace [OF assms] by simp_all

lemma count_result_ahead:
  assumes "ahead k st st'"
  shows "ahead k (count_result (processFile eng p (wld st)) st)
                 (count_result (processFile eng p (wld st')) st')"
proof -
  from assms have ss: "same_store (wld st) (wld st')" by (simp add: ahead_def)
  show ?thesis
    using processFile_same_store [OF ss, of eng p] assms
    by (cases "processFile eng p (wld st)"; cases "processFile eng p (wld st')")
       (auto simp: ahead_def count_result_def)
qed

lemma walk_ahead:
  "ahead k st st' \<Longrightarrow>
     ahead k (processDirectory eng currentDir answer st) (processDirectory eng currentDir answer st')"
  "ahead k st st' \<Longrightarrow>
     ahead k (processEntries eng currentDir entries st) (processEntries eng currentDir entries st')"
proof (induction eng currentDir answer st and eng currentDir entries st
       arbitrary: st' and st' rule: processDirectory_processEntries.induct)
  case (1 eng currentDir msg st)
  then show ?case by (simp add: ahead_def)
next
  case (2 eng currentDir entries st)
  have "ahead k (st\<lparr>wld := emit (Call_readdir currentDir) (wld st)\<rparr>)
                (st'\<lparr>wld := emit (Call_readdir currentDir) (wld st')\<rparr>)"
    using "2.prems" by (simp add: ahead_def)
  then show ?case using "2.IH" by simp
next
  case (3 eng currentDir st)
  then show ?case by simp
next
  case (4 eng currentDir name entries st)
  from "4.prems" have "ahead k (count_result (processFile eng (path_join currentDir name) (wld st)) st)
                 (count_result (processFile eng (path_join currentDir name) (wld st')) st')"
    by (rule count_result_ahead)
  then show ?case using "4.IH" by simp
next
  case (5 eng currentDir name entries st)
  then show ?case by simp
next
  case (6 eng currentDir name answer entries st)
  let ?c = "name \<notin> IGNORED_DIRS \<and> \<not> startsWith name ''.''"
  have "ahead k (if ?c then processDirectory eng (path_join currentDir name) answer st else st)
                (if ?c then processDirectory eng (path_join currentDir name) answer st' else st')"
  proof (cases ?c)
    case True
    then have "ahead k (processDirectory eng (path_join currentDir name) answer st)
                       (processDirectory eng (path_join currentDir name) answer st')"
      using "6.IH"(1) "6.prems" by blast
    with True show ?thesis by simp
  next
    case False
    with "6.prems" show ?thesis by auto
  qed
  then have "ahead k
     (processEntries eng currentDir entries
        (if ?c then processDirectory eng (path_join currentDir name) answer st else st))
     (processEntries eng currentDir entries
        (if ?c then processDirectory eng (path_join currentDir name) answer st' else st'))"
    by (rule "6.IH"(2))
  then show ?case by simp
qed

lemma processEntries_append:
  "processEntries eng currentDir (xs @ ys) st =
     processEntries eng currentDir ys (processEntries eng currentDir xs st)"
proof (induction xs arbitrary: st)
  case Nil
  then show ?case by simp
next
  case (Cons e xs)
  then show ?case by (cases e) simp_all
qed

lemma processFile_first_event:
  "\<exists>e evs. trace (snd (processFile eng p w)) = trace w @ e # evs \<and>
     (e = Console_warn (''Skipping unsupported file type: '' @ p) \<or> e = Call_readFile p)"
proof (cases "toLowerCase (extname p) \<in> SUPPORTED_EXTENSIONS")
  case False
  then show ?thesis by (simp add: processFile_unsupported)
next
  case True
  have "\<exists>evs. trace (snd (processFile_try eng p (toLowerCase (extname p)) w))
          = trace w @ Call_readFile p # evs"
    by (auto simp: processFile_try_def fs_readFile_def fs_writeFile_def fs_unlink_def
      convertTypeScript_eq Let_def
      split: option.splits sum.splits prod.splits if_splits)
  then show ?thesis
    using True by (auto simp: processFile_def Let_def split: option.splits prod.splits)
qed

lemma count_result_trace:
  "\<exists>e evs. trace (wld (count_result (processFile eng p (wld st)) st)) = trace (wld st) @ e # evs \<and>
     (e = Console_warn (''Skipping unsupported file type: '' @ p) \<or> e = Call_readFile p)"
  using processFile_first_event [of eng p "wld st"]
  by (cases "processFile eng p (wld st)") (auto simp: count_result_def)

lemma walk_trace:
  "\<exists>evs. trace (wld (processDirectory eng currentDir answer st))
            = trace (wld st) @ Call_readdir currentDir # evs"
  "\<exists>evs. trace (wld (processEntries eng currentDir entries st)) = trace (wld st) @ evs"
proof (induction eng currentDir answer st and eng currentDir entries st
       rule: processDirectory_processEntries.induct)
  case (1 eng currentDir msg st)
  then show ?case by simp
next
  case (2 eng currentDir entries st)
  then show ?case by auto
next
  case (3 eng currentDir st)
  then show ?case by simp
next
  case (4 eng currentDir name entries st)
  obtain e evs where "trace (wld (count_result (processFile eng (path_join currentDir name) (wld st)) st))
      = trace (wld st) @ e # evs"
    using count_result_trace by blast
  with 4 show ?case by auto
next
  case (5 eng currentDir name entries st)
  then show ?case by simp
next
  case (6 eng currentDir name answer entries st)
  show ?case
  proof (cases "name \<notin> IGNORED_DIRS \<and> \<not> startsWith name ''.''")
    case True
    with 6 show ?thesis by auto
  next
    case False
    with 6 show ?thesis by auto
  qed
qed

lemma processDirectory_changes: "processDirectory eng currentDir answer st \<noteq> st"
proof
  assume "processDirectory eng currentDir answer st = st"
  then have "trace (wld (processDirectory eng currentDir answer st)) = trace (wld st)" by simp
  then show False using walk_trace(1) [of eng currentDir answer st] by auto
qed

section \<open>The command interface\<close>

text \<open>
  C5. With the dry-run flag set, \<open>main\<close> calls neither \<open>processFile\<close> nor
  \<open>convertDirectory\<close>: the world it leaves is the one it found, with these console lines
  added and nothing else (no call of the file system, no change of the file store): the
  runtime parameters when \<open>verbose\<close> is set, the dry-run banner, and one line naming
  the top-level target, which is the file in single-file mode and the directory
  otherwise. The exit status is 0.
\<close>

theorem dry_run_only_prints:
  "dryRun os \<Longrightarrow>
   main eng os answer w =
     (w\<lparr>trace := trace w
          @ (if verbose os then [Console_log_params (dir os) (file_opt os) True] else [])
          @ [Console_log ''Dry run mode: Only showing what files would be converted'',
             Console_log (if truthy (file_opt os)
                          then ''Would convert file: '' @ the (file_opt os)
                          else ''Would scan directory: '' @ dir os)]\<rparr>, 0)"
  by (simp add: main_def main_try_def emit_def)

text \<open>A dry run in single-file mode on \<open>proj/a.ts\<close>: two console lines, the file
  store untouched.\<close>

theorem dry_run_only_prints_witness:
  "dryRun dry_run_opts \<and>
   main demo_engine dry_run_opts (Inr demo_entries) demo_world =
     (demo_world\<lparr>trace :=
        [Console_log ''Dry run mode: Only showing what files would be converted'',
         Console_log ''Would convert file: proj/a.ts'']\<rparr>, 0)"
  using dry_run_only_prints [of dry_run_opts demo_engine "Inr demo_entries" demo_world]
  by (simp add: dry_run_opts_def demo_world_def blank_world_def truthy_def)

text \<open>
  C2 (as the code has it). A single-file run whose target cannot be read does not end with
  a nonzero status: \<open>processFile\<close> catches the error of the read inside its own
  \<open>try\<close> block, logs it and returns false, which \<open>main\<close> ignores. The run adds the
  read and the error line to the trace and exits with status 0. More generally every run
  of \<open>main\<close> exits with status 0, whatever the failure count: nothing reaches the
  \<open>catch\<close> of \<open>main\<close>.
\<close>

theorem unreadable_target_exits_zero:
  assumes "file_opt os = Some f" and "f \<noteq> []" and "\<not> dryRun os"
    and "toLowerCase (extname f) \<in> SUPPORTED_EXTENSIONS"
    and "fst (fs_readFile f w) = Inl msg"
  shows "snd (main eng2 os2 answer2 w2) = 0 \<and>
         main eng os answer w =
           (w\<lparr>trace := trace w
                @ (if verbose os then [Console_log_params (dir os) (file_opt os) False] else [])
                @ [Call_readFile f,
                   Console_error (''Failed to process file '' @ f @ '': '' @ msg)]\<rparr>, 0)"
proof
  show "snd (main eng2 os2 answer2 w2) = 0"
    by (simp add: main_def main_try_def Let_def split: prod.splits)
  let ?w1 = "if verbose os then emit (Console_log_params (dir os) (file_opt os) (dryRun os)) w else w"
  have "fst (fs_readFile f ?w1) = Inl msg"
    using assms(5) by (simp add: fs_readFile_fst_emit)
  then have "processFile eng f ?w1 =
           (False, emit (Console_error (''Failed to process file '' @ f @ '': '' @ msg))
                     (emit (Call_readFile f) ?w1))"
    using assms(4) by (rule processFile_read_fails [rotated])
  then show "main eng os answer w =
           (w\<lparr>trace := trace w
                @ (if verbose os then [Console_log_params (dir os) (file_opt os) False] else [])
                @ [Call_readFile f,
                   Console_error (''Failed to process file '' @ f @ '': '' @ msg)]\<rparr>, 0)"
    using assms(1-3) by (simp add: main_def main_try_def truthy_def emit_def)
qed

text \<open>Single-file mode on \<open>missing.ts\<close> in an empty world: the error is logged and
  the status is 0.\<close>

theorem unreadable_target_exits_zero_witness:
  "file_opt missing_opts = Some ''missing.ts'' \<and> ''missing.ts'' \<noteq> [] \<and> \<not> dryRun missing_opts \<and>
   toLowerCase (extname ''missing.ts'') \<in> SUPPORTED_EXTENSIONS \<and>
   fst (fs_readFile ''missing.ts'' blank_world) = Inl ''ENOENT: no such file or directory'' \<and>
   main demo_engine missing_opts (Inr []) blank_world =
     (blank_world\<lparr>trace :=
        [Call_readFile ''missing.ts'',
         Console_error ''Failed to process file missing.ts: ENOENT: no such file or directory'']\<rparr>, 0)"
proof -
  have h1: "file_opt missing_opts = Some ''missing.ts''" and h3: "\<not> dryRun missing_opts"
    and h6: "\<not> verbose missing_opts"
    by (simp_all add: missing_opts_def)
  have h2: "''missing.ts'' \<noteq> []" by simp
  have h4: "toLowerCase (extname ''missing.ts'') \<in> SUPPORTED_EXTENSIONS" by code_simp
  have h5: "fst (fs_readFile ''missing.ts'' blank_world) = Inl ''ENOENT: no such file or directory''"
    by (simp add: fs_readFile_def names_no_file_def blank_world_def Let_def)
  show ?thesis
    using unreadable_target_exits_zero [OF h1 h2 h3 h4 h5, of demo_engine missing_opts "Inr []" blank_world demo_engine "Inr []"]
      h1 h2 h3 h4 h5 h6
    by (simp add: blank_world_def)
qed

text \<open>The claim as stated fails there: the read throws and the exit status is zero.\<close>

theorem unreadable_target_counterexample:
  "fst (fs_readFile ''missing.ts'' blank_world) = Inl ''ENOENT: no such file or directory'' \<and>
   snd (main demo_engine missing_opts (Inr []) blank_world) = 0"
  by (simp add: fs_readFile_def names_no_file_def blank_world_def Let_def main_def main_try_def
      truthy_def missing_opts_def split: prod.splits)

section \<open>The file converter\<close>

text \<open>
  C3. In every run of \<open>processFile\<close>: (1) if \<open>fs.unlink\<close> is called at all, it is
  called once, on the original file, directly after the call of \<open>fs.writeFile\<close> on
  the output path, and that write succeeded: the converted text is in the store at the
  output path; (2) when the extension is not supported, or the read fails, or the
  conversion gives nothing (\<open>null\<close> or the empty string), the run returns false, calls
  neither \<open>fs.writeFile\<close> nor \<open>fs.unlink\<close>, and leaves the file store as it was;
  (3) whenever the run returns false, the original file is in the store as before.
\<close>

theorem write_precedes_unlink:
  "(Call_unlink q \<in> set (new_events w (snd (processFile eng filePath w))) \<longrightarrow>
      q = filePath \<and>
      write_fault w (newPath_of filePath (toLowerCase (extname filePath))) = None \<and>
      (\<exists>pre c post.
         new_events w (snd (processFile eng filePath w)) =
           pre @ [Call_writeFile (newPath_of filePath (toLowerCase (extname filePath))) c,
                  Call_unlink filePath] @ post \<and>
         (\<forall>q'. Call_unlink q' \<notin> set (pre @ post)) \<and>
         files (snd (processFile eng filePath w))
           (newPath_of filePath (toLowerCase (extname filePath))) = Some c))
   \<and> (toLowerCase (extname filePath) \<notin> SUPPORTED_EXTENSIONS
        \<or> (\<exists>msg. fst (fs_readFile filePath w) = Inl msg)
        \<or> (\<exists>src. fst (fs_readFile filePath w) = Inr src \<and> falsy (converted eng src)) \<longrightarrow>
      \<not> fst (processFile eng filePath w) \<and>
      files (snd (processFile eng filePath w)) = files w \<and>
      (\<forall>p c. Call_writeFile p c \<notin> set (new_events w (snd (processFile eng filePath w)))) \<and>
      (\<forall>p. Call_unlink p \<notin> set (new_events w (snd (processFile eng filePath w)))))
   \<and> (\<not> fst (processFile eng filePath w) \<longrightarrow>
      files (snd (processFile eng filePath w)) filePath = files w filePath)"
proof (intro conjI impI)
  let ?np = "newPath_of filePath (toLowerCase (extname filePath))"
  let ?evs = "new_events w (snd (processFile eng filePath w))"
  assume u: "Call_unlink q \<in> set ?evs"
  note r = processFile_unlink_reached [OF u]
  from r show "q = filePath" by blast
  from r show "write_fault w ?np = None" by blast
  from r obtain src c e where evs: "?evs =
              [Call_readFile filePath, Call_transform src (str_includes src ''tsx'')]
              @ [Call_writeFile ?np c, Call_unlink filePath] @ [e]"
    and e: "\<forall>q'. e \<noteq> Call_unlink q'"
    and fl: "files (snd (processFile eng filePath w)) =
               (if fst (processFile eng filePath w)
                then (files w)(?np \<mapsto> c, filePath := None)
                else (files w)(?np \<mapsto> c))"
    by blast
  from r obtain stem where "filePath = stem @ extname filePath" using extname_suffix by blast
  with r have neq: "?np \<noteq> filePath" using newPath_of_neq by blast
  have "files (snd (processFile eng filePath w)) ?np = Some c"
    using neq by (simp add: fl)
  moreover have "\<forall>q'. Call_unlink q' \<notin>
      set ([Call_readFile filePath, Call_transform src (str_includes src ''tsx'')] @ [e])"
    using e by auto
  ultimately show "\<exists>pre c post. ?evs = pre @ [Call_writeFile ?np c, Call_unlink filePath] @ post \<and>
         (\<forall>q'. Call_unlink q' \<notin> set (pre @ post)) \<and>
         files (snd (processFile eng filePath w)) ?np = Some c"
    using evs by blast
next
  assume a: "toLowerCase (extname filePath) \<notin> SUPPORTED_EXTENSIONS
        \<or> (\<exists>msg. fst (fs_readFile filePath w) = Inl msg)
        \<or> (\<exists>src. fst (fs_readFile filePath w) = Inr src \<and> falsy (converted eng src))"
  note r = processFile_pre_write_failure [OF a]
  from r show "\<not> fst (processFile eng filePath w)" by blast
  from r show "files (snd (processFile eng filePath w)) = files w" by blast
  from r show "\<forall>p c. Call_writeFile p c \<notin> set (new_events w (snd (processFile eng filePath w)))" by blast
  from r show "\<forall>p. Call_unlink p \<notin> set (new_events w (snd (processFile eng filePath w)))" by blast
next
  assume "\<not> fst (processFile eng filePath w)"
  then show "files (snd (processFile eng filePath w)) filePath = files w filePath"
    by (rule processFile_failure_keeps_original)
qed

text \<open>The write comes before the unlink in the run on \<open>proj/a.ts\<close>; the run on the
  unparsable \<open>proj/broken.ts\<close> fails and changes nothing.\<close>

theorem write_precedes_unlink_witness:
  "Call_unlink ''proj/a.ts''
     \<in> set (new_events demo_world (snd (processFile demo_engine ''proj/a.ts'' demo_world))) \<and>
   write_fault demo_world ''proj/a.js'' = None \<and>
   (\<exists>pre c post.
      new_events demo_world (snd (processFile demo_engine ''proj/a.ts'' demo_world)) =
        pre @ [Call_writeFile ''proj/a.js'' c, Call_unlink ''proj/a.ts''] @ post \<and>
      (\<forall>q'. Call_unlink q' \<notin> set (pre @ post)) \<and>
      files (snd (processFile demo_engine ''proj/a.ts'' demo_world)) ''proj/a.js'' = Some c) \<and>
   fst (fs_readFile ''proj/broken.ts'' broken_world) = Inr ''let <<< = 1;'' \<and>
   falsy (converted demo_engine ''let <<< = 1;'') \<and>
   \<not> fst (processFile demo_engine ''proj/broken.ts'' broken_world) \<and>
   files (snd (processFile demo_engine ''proj/broken.ts'' broken_world)) = files broken_world \<and>
   files (snd (processFile demo_engine ''proj/broken.ts'' broken_world)) ''proj/broken.ts''
     = files broken_world ''proj/broken.ts''"
proof -
  have np: "newPath_of ''proj/a.ts'' (toLowerCase (extname ''proj/a.ts'')) = ''proj/a.js''"
    by code_simp
  have u: "Call_unlink ''proj/a.ts''
     \<in> set (new_events demo_world (snd (processFile demo_engine ''proj/a.ts'' demo_world)))"
    unfolding new_events_def demo_run by (simp add: demo_world_def blank_world_def)
  have a: "write_fault demo_world ''proj/a.js'' = None \<and>
   (\<exists>pre c post.
      new_events demo_world (snd (processFile demo_engine ''proj/a.ts'' demo_world)) =
        pre @ [Call_writeFile ''proj/a.js'' c, Call_unlink ''proj/a.ts''] @ post \<and>
      (\<forall>q'. Call_unlink q' \<notin> set (pre @ post)) \<and>
      files (snd (processFile demo_engine ''proj/a.ts'' demo_world)) ''proj/a.js'' = Some c)"
    using write_precedes_unlink [of "''proj/a.ts''" demo_world demo_engine "''proj/a.ts''"] u
    unfolding np by blast
  have r: "fst (fs_readFile ''proj/broken.ts'' broken_world) = Inr ''let <<< = 1;''"
    by (simp add: fs_readFile_Inr names_no_file_def broken_world_def blank_world_def)
  have f: "falsy (converted demo_engine ''let <<< = 1;'')" by code_simp
  have b: "\<not> fst (processFile demo_engine ''proj/broken.ts'' broken_world) \<and>
   files (snd (processFile demo_engine ''proj/broken.ts'' broken_world)) = files broken_world"
    using write_precedes_unlink [of _ broken_world demo_engine "''proj/broken.ts''"] r f
    by blast
  then have c: "files (snd (processFile demo_engine ''proj/broken.ts'' broken_world)) ''proj/broken.ts''
     = files broken_world ''proj/broken.ts''"
    using write_precedes_unlink [of _ broken_world demo_engine "''proj/broken.ts''"] by blast
  from u a r f b c show ?thesis by blast
qed

text \<open>
  C4. A file with a supported extension whose conversion succeeds (the file is read, the
  engine gives a non-empty text, the write and the unlink succeed): its path is a stem
  followed by its extension, the output path is the stem followed by \<open>.js\<close> for
  \<open>.ts\<close> and by \<open>.jsx\<close> for \<open>.tsx\<close>, and differs from the path;
  \<open>processFile\<close> returns true; afterwards the store has the converted text at the
  output path, nothing at the original path, and every other path as before.
\<close>

theorem successful_conversion_moves_file:
  assumes "toLowerCase (extname filePath) = ext" and "ext \<in> SUPPORTED_EXTENSIONS"
    and "\<not> names_no_file filePath" and "read_fault w filePath = None"
    and "files w filePath = Some sourceCode"
    and "converted eng sourceCode = Some code" and "code \<noteq> []"
    and "write_fault w (newPath_of filePath ext) = None"
    and "unlink_fault w filePath = None"
  shows "\<exists>stem. filePath = stem @ extname filePath
           \<and> newPath_of filePath ext = stem @ (if ext = ''.ts'' then ''.js'' else ''.jsx'')
           \<and> (ext = ''.ts'' \<or> ext = ''.tsx'')
           \<and> newPath_of filePath ext \<noteq> filePath
           \<and> fst (processFile eng filePath w) = True
           \<and> files (snd (processFile eng filePath w)) (newPath_of filePath ext) = Some code
           \<and> files (snd (processFile eng filePath w)) filePath = None
           \<and> (\<forall>q. q \<noteq> filePath \<and> q \<noteq> newPath_of filePath ext \<longrightarrow>
                  files (snd (processFile eng filePath w)) q = files w q)"
proof -
  have sup: "toLowerCase (extname filePath) \<in> SUPPORTED_EXTENSIONS"
    using assms(1,2) by simp
  obtain stem where st: "filePath = stem @ extname filePath"
    using extname_suffix [OF assms(3)] by blast
  have np: "newPath_of filePath ext = stem @ (if ext = ''.ts'' then ''.js'' else ''.jsx'')"
    using newPath_of_stem [OF sup st] assms(1) by simp
  have neq: "newPath_of filePath ext \<noteq> filePath"
    using newPath_of_neq [OF sup st] assms(1) by simp
  have ex: "ext = ''.ts'' \<or> ext = ''.tsx''"
    using assms(2) by (simp add: SUPPORTED_EXTENSIONS_def)
  have wf: "write_fault w (newPath_of filePath (toLowerCase (extname filePath))) = None"
    using assms(1,8) by simp
  note run = processFile_success [OF sup assms(3,4,5,6,7) wf assms(9)]
  have "fst (processFile eng filePath w) = True
           \<and> files (snd (processFile eng filePath w)) (newPath_of filePath ext) = Some code
           \<and> files (snd (processFile eng filePath w)) filePath = None
           \<and> (\<forall>q. q \<noteq> filePath \<and> q \<noteq> newPath_of filePath ext \<longrightarrow>
                  files (snd (processFile eng filePath w)) q = files w q)"
    using neq assms(1) by (simp add: run)
  with st np neq ex show ?thesis by blast
qed

text \<open>\<open>proj/a.ts\<close> becomes \<open>proj/a.js\<close>.\<close>

theorem successful_conversion_moves_file_witness:
  "toLowerCase (extname ''proj/a.ts'') = ''.ts'' \<and> ''.ts'' \<in> SUPPORTED_EXTENSIONS \<and>
   \<not> names_no_file ''proj/a.ts'' \<and> read_fault demo_world ''proj/a.ts'' = None \<and>
   files demo_world ''proj/a.ts'' = Some ''let a = 1;'' \<and>
   converted demo_engine ''let a = 1;'' = Some ''let a = 1;'' \<and> ''let a = 1;'' \<noteq> [] \<and>
   write_fault demo_world (newPath_of ''proj/a.ts'' ''.ts'') = None \<and>
   unlink_fault demo_world ''proj/a.ts'' = None \<and>
   newPath_of ''proj/a.ts'' ''.ts'' = ''proj/a.js'' \<and>
   fst (processFile demo_engine ''proj/a.ts'' demo_world) = True \<and>
   files (snd (processFile demo_engine ''proj/a.ts'' demo_world)) ''proj/a.js'' = Some ''let a = 1;'' \<and>
   files (snd (processFile demo_engine ''proj/a.ts'' demo_world)) ''proj/a.ts'' = None"
proof -
  have h1: "toLowerCase (extname ''proj/a.ts'') = ''.ts''" by code_simp
  have h2: "''.ts'' \<in> SUPPORTED_EXTENSIONS" by code_simp
  have h3: "\<not> names_no_file ''proj/a.ts''" by (simp add: names_no_file_def)
  have h4: "read_fault demo_world ''proj/a.ts'' = None" by (simp add: demo_world_def blank_world_def)
  have h5: "files demo_world ''proj/a.ts'' = Some ''let a = 1;''" by (simp add: demo_world_def blank_world_def)
  have h6: "converted demo_engine ''let a = 1;'' = Some ''let a = 1;''" by code_simp
  have h7: "''let a = 1;'' \<noteq> []" by simp
  have h8: "write_fault demo_world (newPath_of ''proj/a.ts'' ''.ts'') = None"
    by (simp add: demo_world_def blank_world_def)
  have h9: "unlink_fault demo_world ''proj/a.ts'' = None" by (simp add: demo_world_def blank_world_def)
  have np: "newPath_of ''proj/a.ts'' ''.ts'' = ''proj/a.js''" by code_simp
  from successful_conversion_moves_file [OF h1 h2 h3 h4 h5 h6 h7 h8 h9]
  have "fst (processFile demo_engine ''proj/a.ts'' demo_world) = True \<and>
     files (snd (processFile demo_engine ''proj/a.ts'' demo_world)) (newPath_of ''proj/a.ts'' ''.ts'') = Some ''let a = 1;'' \<and>
     files (snd (processFile demo_engine ''proj/a.ts'' demo_world)) ''proj/a.ts'' = None"
    by blast
  then have "fst (processFile demo_engine ''proj/a.ts'' demo_world) = True \<and>
     files (snd (processFile demo_engine ''proj/a.ts'' demo_world)) ''proj/a.js'' = Some ''let a = 1;'' \<and>
     files (snd (processFile demo_engine ''proj/a.ts'' demo_world)) ''proj/a.ts'' = None"
    unfolding np .
  with h1 h2 h3 h4 h5 h6 h7 h8 h9 np show ?thesis by blast
qed

text \<open>
  C9. A successful conversion whose output path already holds a file: the run makes
  exactly the calls of a conversion (read, transform, write, unlink, in this order) and
  prints the success line, with no warning and no other call; the converted text
  replaces what was at the output path; and the run is the very same as in the world where
  nothing was at the output path.
\<close>

theorem existing_output_overwritten:
  assumes "toLowerCase (extname filePath) = ext" and "ext \<in> SUPPORTED_EXTENSIONS"
    and "\<not> names_no_file filePath" and "read_fault w filePath = None"
    and "files w filePath = Some sourceCode"
    and "converted eng sourceCode = Some code" and "code \<noteq> []"
    and "write_fault w (newPath_of filePath ext) = None"
    and "unlink_fault w filePath = None"
    and "files w (newPath_of filePath ext) = Some old"
  shows "fst (processFile eng filePath w) = True
       \<and> files (snd (processFile eng filePath w)) (newPath_of filePath ext) = Some code
       \<and> new_events w (snd (processFile eng filePath w)) =
            [Call_readFile filePath, Call_transform sourceCode (str_includes sourceCode ''tsx''),
             Call_writeFile (newPath_of filePath ext) code, Call_unlink filePath,
             Console_log (''Successfully converted: '' @ basename filePath @ '' '' @ arrow @ '' ''
                  @ basename (newPath_of filePath ext))]
       \<and> processFile eng filePath (w\<lparr>files := (files w)(newPath_of filePath ext := None)\<rparr>)
            = processFile eng filePath w"
proof -
  let ?np = "newPath_of filePath ext"
  let ?w0 = "w\<lparr>files := (files w)(?np := None)\<rparr>"
  have sup: "toLowerCase (extname filePath) \<in> SUPPORTED_EXTENSIONS"
    using assms(1,2) by simp
  obtain stem where st: "filePath = stem @ extname filePath"
    using extname_suffix [OF assms(3)] by blast
  have neq: "?np \<noteq> filePath"
    using newPath_of_neq [OF sup st] assms(1) by simp
  have wf: "write_fault w (newPath_of filePath (toLowerCase (extname filePath))) = None"
    using assms(1,8) by simp
  note run = processFile_success [OF sup assms(3,4,5,6,7) wf assms(9)]
  have rf0: "read_fault ?w0 filePath = None" using assms(4) by simp
  have f0: "files ?w0 filePath = Some sourceCode" using assms(5) neq by simp
  have wf0: "write_fault ?w0 (newPath_of filePath (toLowerCase (extname filePath))) = None"
    using wf by simp
  have uf0: "unlink_fault ?w0 filePath = None" using assms(9) by simp
  note run0 = processFile_success [OF sup assms(3) rf0 f0 assms(6,7) wf0 uf0]
  have same: "processFile eng filePath ?w0 = processFile eng filePath w"
    unfolding run run0 using assms(1) by simp
  have "fst (processFile eng filePath w) = True
       \<and> files (snd (processFile eng filePath w)) ?np = Some code
       \<and> new_events w (snd (processFile eng filePath w)) =
            [Call_readFile filePath, Call_transform sourceCode (str_includes sourceCode ''tsx''),
             Call_writeFile ?np code, Call_unlink filePath,
             Console_log (''Successfully converted: '' @ basename filePath @ '' '' @ arrow @ '' ''
                  @ basename ?np)]"
    using neq assms(1) by (simp add: run new_events_def)
  with same show ?thesis by blast
qed

text \<open>\<open>proj/a.js\<close> holds \<open>old text\<close> before the run and the converted text after
  it.\<close>

theorem existing_output_overwritten_witness:
  "toLowerCase (extname ''proj/a.ts'') = ''.ts'' \<and> ''.ts'' \<in> SUPPORTED_EXTENSIONS \<and>
   \<not> names_no_file ''proj/a.ts'' \<and> read_fault overwrite_world ''proj/a.ts'' = None \<and>
   files overwrite_world ''proj/a.ts'' = Some ''let a = 1;'' \<and>
   converted demo_engine ''let a = 1;'' = Some ''let a = 1;'' \<and> ''let a = 1;'' \<noteq> [] \<and>
   write_fault overwrite_world (newPath_of ''proj/a.ts'' ''.ts'') = None \<and>
   unlink_fault overwrite_world ''proj/a.ts'' = None \<and>
   newPath_of ''proj/a.ts'' ''.ts'' = ''proj/a.js'' \<and>
   files overwrite_world ''proj/a.js'' = Some ''old text'' \<and>
   fst (processFile demo_engine ''proj/a.ts'' overwrite_world) = True \<and>
   files (snd (processFile demo_engine ''proj/a.ts'' overwrite_world)) ''proj/a.js'' = Some ''let a = 1;'' \<and>
   processFile demo_engine ''proj/a.ts'' (overwrite_world\<lparr>files := (files overwrite_world)(''proj/a.js'' := None)\<rparr>)
     = processFile demo_engine ''proj/a.ts'' overwrite_world"
proof -
  have h1: "toLowerCase (extname ''proj/a.ts'') = ''.ts''" by code_simp
  have h2: "''.ts'' \<in> SUPPORTED_EXTENSIONS" by code_simp
  have h3: "\<not> names_no_file ''proj/a.ts''" by (simp add: names_no_file_def)
  have h4: "read_fault overwrite_world ''proj/a.ts'' = None"
    by (simp add: overwrite_world_def demo_world_def blank_world_def)
  have h5: "files overwrite_world ''proj/a.ts'' = Some ''let a = 1;''"
    by (simp add: overwrite_world_def demo_world_def blank_world_def)
  have h6: "converted demo_engine ''let a = 1;'' = Some ''let a = 1;''" by code_simp
  have h7: "''let a = 1;'' \<noteq> []" by simp
  have h8: "write_fault overwrite_world (newPath_of ''proj/a.ts'' ''.ts'') = None"
    by (simp add: overwrite_world_def demo_world_def blank_world_def)
  have h9: "unlink_fault overwrite_world ''proj/a.ts'' = None"
    by (simp add: overwrite_world_def demo_world_def blank_world_def)
  have np: "newPath_of ''proj/a.ts'' ''.ts'' = ''proj/a.js''" by code_simp
  have h10: "files overwrite_world (newPath_of ''proj/a.ts'' ''.ts'') = Some ''old text''"
    unfolding np by (simp add: overwrite_world_def)
  from existing_output_overwritten [OF h1 h2 h3 h4 h5 h6 h7 h8 h9 h10]
  have "fst (processFile demo_engine ''proj/a.ts'' overwrite_world) = True \<and>
     files (snd (processFile demo_engine ''proj/a.ts'' overwrite_world)) (newPath_of ''proj/a.ts'' ''.ts'') = Some ''let a = 1;'' \<and>
     processFile demo_engine ''proj/a.ts'' (overwrite_world\<lparr>files := (files overwrite_world)(newPath_of ''proj/a.ts'' ''.ts'' := None)\<rparr>)
       = processFile demo_engine ''proj/a.ts'' overwrite_world"
    by blast
  then have "fst (processFile demo_engine ''proj/a.ts'' overwrite_world) = True \<and>
     files (snd (processFile demo_engine ''proj/a.ts'' overwrite_world)) ''proj/a.js'' = Some ''let a = 1;'' \<and>
     processFile demo_engine ''proj/a.ts'' (overwrite_world\<lparr>files := (files overwrite_world)(''proj/a.js'' := None)\<rparr>)
       = processFile demo_engine ''proj/a.ts'' overwrite_world"
    unfolding np .
  moreover have "files overwrite_world ''proj/a.js'' = Some ''old text''"
    using h10 unfolding np .
  ultimately show ?thesis using h1 h2 h3 h4 h5 h6 h7 h8 h9 np by blast
qed

section \<open>The directory walker\<close>

text \<open>
  C1 (as the code has it). A file whose lower-cased extension is not \<open>.ts\<close> or
  \<open>.tsx\<close> is skipped with a warning and no change of the file store, and
  \<open>processFile\<close> returns false for it; the walker counts that false as a failure.
  So a walk over a directory with such a file entry ends with the successes and the file
  store of the walk over the directory without the entry, and with one failure more. In
  the scenario (\<open>a.ts\<close>, \<open>b.tsx\<close>, \<open>c.json\<close>) the walk reports 2 successes and 1
  failure.
\<close>

theorem unsupported_file_counts_as_failure:
  assumes "toLowerCase (extname (path_join currentDir name)) \<notin> SUPPORTED_EXTENSIONS"
  shows "processFile eng (path_join currentDir name) w =
           (False, emit (Console_warn (''Skipping unsupported file type: '' @ path_join currentDir name)) w)
     \<and> successCount (processEntries eng currentDir (pre @ FileEnt name # post) st)
         = successCount (processEntries eng currentDir (pre @ post) st)
     \<and> failureCount (processEntries eng currentDir (pre @ FileEnt name # post) st)
         = failureCount (processEntries eng currentDir (pre @ post) st) + 1
     \<and> files (wld (processEntries eng currentDir (pre @ FileEnt name # post) st))
         = files (wld (processEntries eng currentDir (pre @ post) st))"
proof -
  let ?st1 = "processEntries eng currentDir pre st"
  let ?p = "path_join currentDir name"
  let ?f = "count_result (processFile eng ?p (wld ?st1)) ?st1"
  have step: "processEntries eng currentDir (pre @ FileEnt name # post) st =
         processEntries eng currentDir post ?f"
    by (simp add: processEntries_append)
  have rest: "processEntries eng currentDir (pre @ post) st = processEntries eng currentDir post ?st1"
    by (rule processEntries_append)
  have "ahead 1 ?st1 ?f"
    by (simp add: processFile_unsupported [OF assms] count_result_def ahead_def)
  then have "ahead 1 (processEntries eng currentDir post ?st1) (processEntries eng currentDir post ?f)"
    by (rule walk_ahead(2))
  then have "ahead 1 (processEntries eng currentDir (pre @ post) st)
                     (processEntries eng currentDir (pre @ FileEnt name # post) st)"
    unfolding step rest .
  then show ?thesis
    using processFile_unsupported [OF assms, of eng w] by (simp add: ahead_def same_store_def)
qed

text \<open>The scenario: two successes, and the failure that \<open>c.json\<close> adds.\<close>

theorem unsupported_file_counts_as_failure_witness:
  "toLowerCase (extname (path_join ''proj'' ''c.json'')) \<notin> SUPPORTED_EXTENSIONS \<and>
   successCount (processEntries demo_engine ''proj''
      [FileEnt ''a.ts'', FileEnt ''b.tsx'', FileEnt ''c.json''] (start_walk demo_world)) = 2 \<and>
   failureCount (processEntries demo_engine ''proj''
      [FileEnt ''a.ts'', FileEnt ''b.tsx'', FileEnt ''c.json''] (start_walk demo_world)) = 1"
proof -
  let ?pre = "[FileEnt ''a.ts'', FileEnt ''b.tsx'']"
  have h: "toLowerCase (extname (path_join ''proj'' ''c.json'')) \<notin> SUPPORTED_EXTENSIONS"
    by code_simp
  have s0: "successCount (processEntries demo_engine ''proj'' (?pre @ []) (start_walk demo_world)) = 2"
    by code_simp
  have f0: "failureCount (processEntries demo_engine ''proj'' (?pre @ []) (start_walk demo_world)) = 0"
    by code_simp
  note t = unsupported_file_counts_as_failure [OF h, where eng = demo_engine and pre = ?pre
      and post = "[]" and st = "start_walk demo_world"]
  from t have "successCount (processEntries demo_engine ''proj'' (?pre @ [FileEnt ''c.json''])
        (start_walk demo_world)) = 2"
    unfolding s0 by blast
  moreover from t have fa: "failureCount (processEntries demo_engine ''proj'' (?pre @ [FileEnt ''c.json''])
        (start_walk demo_world))
      = failureCount (processEntries demo_engine ''proj'' (?pre @ []) (start_walk demo_world)) + 1"
    by blast
  have "failureCount (processEntries demo_engine ''proj'' (?pre @ [FileEnt ''c.json''])
        (start_walk demo_world)) = 1"
    unfolding fa f0 by simp
  ultimately show ?thesis using h by (simp only: append.simps simp_thms)
qed

text \<open>The claim as stated fails on the scenario: the walk reports failure 1, not 0.\<close>

theorem unsupported_file_counterexample:
  "toLowerCase (extname (path_join ''proj'' ''c.json'')) \<notin> SUPPORTED_EXTENSIONS \<and>
   fst (convertDirectory demo_engine ''proj'' (Inr demo_entries) demo_world) = (2, 1)"
  by code_simp

text \<open>
  C6. A directory entry is skipped when its name is in \<open>IGNORED_DIRS\<close> or starts
  with a dot, and the walker recurses into it otherwise, wherever the entry stands among
  the entries. Skipping leaves the whole walk state (both counters and the world) as it
  was, whatever the directory holds; recursing never does, since it starts with the
  call of \<open>fs.readdir\<close> on the joined path. So the entry leaves the state unchanged if
  and only if its name is ignored.
\<close>

theorem directories_skipped_iff_ignored:
  "processEntries eng currentDir (pre @ DirEnt name answer # post) st =
     processEntries eng currentDir post
       (if name \<in> IGNORED_DIRS \<or> startsWith name ''.''
        then processEntries eng currentDir pre st
        else processDirectory eng (path_join currentDir name) answer
               (processEntries eng currentDir pre st))
   \<and> (processEntries eng currentDir [DirEnt name answer] st = st)
       = (name \<in> IGNORED_DIRS \<or> startsWith name ''.'')
   \<and> (\<exists>evs. trace (wld (processDirectory eng dirPath answer st))
               = trace (wld st) @ Call_readdir dirPath # evs)
   \<and> startsWith name ''.'' = (\<exists>rest. name = CHR ''.'' # rest)
   \<and> IGNORED_DIRS = {''node_modules'', ''.git'', ''.vscode'', ''.idea''}"
proof (intro conjI)
  show "processEntries eng currentDir (pre @ DirEnt name answer # post) st =
     processEntries eng currentDir post
       (if name \<in> IGNORED_DIRS \<or> startsWith name ''.''
        then processEntries eng currentDir pre st
        else processDirectory eng (path_join currentDir name) answer
               (processEntries eng currentDir pre st))"
    by (simp add: processEntries_append)
  show "(processEntries eng currentDir [DirEnt name answer] st = st)
       = (name \<in> IGNORED_DIRS \<or> startsWith name ''.'')"
    using processDirectory_changes [of eng "path_join currentDir name" answer st] by auto
  show "\<exists>evs. trace (wld (processDirectory eng dirPath answer st))
               = trace (wld st) @ Call_readdir dirPath # evs"
    by (rule walk_trace(1))
  show "startsWith name ''.'' = (\<exists>rest. name = CHR ''.'' # rest)"
    by (cases name) (auto simp: startsWith_def)
  show "IGNORED_DIRS = {''node_modules'', ''.git'', ''.vscode'', ''.idea''}"
    by (rule IGNORED_DIRS_def)
qed

text \<open>
  C7. A directory that cannot be enumerated: \<open>processDirectory\<close> records the call of
  \<open>fs.readdir\<close>, logs the error and adds one to the failure count, nothing else. Inside
  a walk (the directory's name not being ignored) the loop goes on with the entries
  after it, and the walk ends with the successes and the file store of the walk over the
  entries without that directory, and with exactly one failure more.
\<close>

theorem unreadable_directory_counts_once:
  assumes "name \<notin> IGNORED_DIRS" and "\<not> startsWith name ''.''"
  shows "processDirectory eng dirPath (Inl msg) st0 =
           st0\<lparr>wld := emit (Console_error (''Failed to read directory '' @ dirPath @ '': '' @ msg))
                         (emit (Call_readdir dirPath) (wld st0)),
               failureCount := failureCount st0 + 1\<rparr>
     \<and> processEntries eng currentDir (pre @ DirEnt name (Inl msg) # post) st =
         processEntries eng currentDir post
           (processDirectory eng (path_join currentDir name) (Inl msg)
              (processEntries eng currentDir pre st))
     \<and> successCount (processEntries eng currentDir (pre @ DirEnt name (Inl msg) # post) st)
         = successCount (processEntries eng currentDir (pre @ post) st)
     \<and> failureCount (processEntries eng currentDir (pre @ DirEnt name (Inl msg) # post) st)
         = failureCount (processEntries eng currentDir (pre @ post) st) + 1
     \<and> files (wld (processEntries eng currentDir (pre @ DirEnt name (Inl msg) # post) st))
         = files (wld (processEntries eng currentDir (pre @ post) st))"
proof -
  let ?st1 = "processEntries eng currentDir pre st"
  let ?d = "processDirectory eng (path_join currentDir name) (Inl msg) ?st1"
  have step: "processEntries eng currentDir (pre @ DirEnt name (Inl msg) # post) st =
         processEntries eng currentDir post ?d"
    using assms by (simp add: processEntries_append)
  have rest: "processEntries eng currentDir (pre @ post) st = processEntries eng currentDir post ?st1"
    by (rule processEntries_append)
  have "ahead 1 ?st1 ?d" by (simp add: ahead_def)
  then have "ahead 1 (processEntries eng currentDir post ?st1) (processEntries eng currentDir post ?d)"
    by (rule walk_ahead(2))
  then have "ahead 1 (processEntries eng currentDir (pre @ post) st)
                     (processEntries eng currentDir (pre @ DirEnt name (Inl msg) # post) st)"
    unfolding step rest .
  then show ?thesis
    using step by (simp add: ahead_def same_store_def)
qed

text \<open>A directory \<open>locked\<close> that cannot be read, before \<open>a.ts\<close>: one failure for
  the directory, and \<open>a.ts\<close> is still converted.\<close>

theorem unreadable_directory_counts_once_witness:
  "''locked'' \<notin> IGNORED_DIRS \<and> \<not> startsWith ''locked'' ''.'' \<and>
   successCount (processEntries demo_engine ''proj''
      [DirEnt ''locked'' (Inl ''EACCES: permission denied''), FileEnt ''a.ts'']
      (start_walk demo_world)) = 1 \<and>
   failureCount (processEntries demo_engine ''proj''
      [DirEnt ''locked'' (Inl ''EACCES: permission denied''), FileEnt ''a.ts'']
      (start_walk demo_world)) = 1"
proof -
  let ?post = "[FileEnt ''a.ts'']"
  have h1: "''locked'' \<notin> IGNORED_DIRS" by code_simp
  have h2: "\<not> startsWith ''locked'' ''.''" by code_simp
  have s0: "successCount (processEntries demo_engine ''proj'' ([] @ ?post) (start_walk demo_world)) = 1"
    by code_simp
  have f0: "failureCount (processEntries demo_engine ''proj'' ([] @ ?post) (start_walk demo_world)) = 0"
    by code_simp
  note t = unreadable_directory_counts_once [OF h1 h2, where eng = demo_engine
      and currentDir = "''proj''" and pre = "[]" and msg = "''EACCES: permission denied''"
      and post = ?post and st = "start_walk demo_world"]
  from t have "successCount (processEntries demo_engine ''proj''
        ([] @ DirEnt ''locked'' (Inl ''EACCES: permission denied'') # ?post) (start_walk demo_world)) = 1"
    unfolding s0 by blast
  moreover from t have fa: "failureCount (processEntries demo_engine ''proj''
        ([] @ DirEnt ''locked'' (Inl ''EACCES: permission denied'') # ?post) (start_walk demo_world))
      = failureCount (processEntries demo_engine ''proj'' ([] @ ?post) (start_walk demo_world)) + 1"
    by blast
  have "failureCount (processEntries demo_engine ''proj''
        ([] @ DirEnt ''locked'' (Inl ''EACCES: permission denied'') # ?post) (start_walk demo_world)) = 1"
    unfolding fa f0 by simp
  ultimately show ?thesis using h1 h2 by (simp only: append.simps simp_thms)
qed

text \<open>
  C10. A file entry is never skipped by its name. Whatever the name, the loop over the one
  entry calls \<open>processFile\<close> on the joined path and counts its result: the state
  after it is the state before it with the world \<open>processFile\<close> left, one success
  more when the result is true, and one failure more when it is false; so the two
  counters together grow by exactly one, and the trace grows by the events of the call,
  the first of which is the warning about the path or the read of the path. Wherever
  the entry stands among the entries, the loop runs this step between the entries before
  it and those after it.
\<close>

theorem files_never_ignored:
  "processEntries eng currentDir [FileEnt name] st =
     st\<lparr>wld := snd (processFile eng (path_join currentDir name) (wld st)),
        successCount := successCount st
          + (if fst (processFile eng (path_join currentDir name) (wld st)) then 1 else 0),
        failureCount := failureCount st
          + (if fst (processFile eng (path_join currentDir name) (wld st)) then 0 else 1)\<rparr>
   \<and> successCount (processEntries eng currentDir [FileEnt name] st)
       + failureCount (processEntries eng currentDir [FileEnt name] st)
       = successCount st + failureCount st + 1
   \<and> (\<exists>e evs. trace (wld (processEntries eng currentDir [FileEnt name] st))
                  = trace (wld st) @ e # evs \<and>
         (e = Console_warn (''Skipping unsupported file type: '' @ path_join currentDir name)
          \<or> e = Call_readFile (path_join currentDir name)))
   \<and> processEntries eng currentDir (pre @ FileEnt name # post) st =
       processEntries eng currentDir post
         (processEntries eng currentDir [FileEnt name] (processEntries eng currentDir pre st))
   \<and> processEntries eng currentDir (pre @ FileEnt name # post) st =
     processEntries eng currentDir post
       (count_result
          (processFile eng (path_join currentDir name) (wld (processEntries eng currentDir pre st)))
          (processEntries eng currentDir pre st))
   \<and> successCount (count_result (processFile eng p (wld st1)) st1)
       = successCount st1 + (if fst (processFile eng p (wld st1)) then 1 else 0)
   \<and> failureCount (count_result (processFile eng p (wld st1)) st1)
       = failureCount st1 + (if fst (processFile eng p (wld st1)) then 0 else 1)
   \<and> wld (count_result (processFile eng p (wld st1)) st1) = snd (processFile eng p (wld st1))
   \<and> (\<exists>e evs. trace (snd (processFile eng p w)) = trace w @ e # evs \<and>
         (e = Console_warn (''Skipping unsupported file type: '' @ p) \<or> e = Call_readFile p))"
proof (intro conjI)
  let ?r = "processFile eng (path_join currentDir name) (wld st)"
  show one: "processEntries eng currentDir [FileEnt name] st =
     st\<lparr>wld := snd ?r,
        successCount := successCount st + (if fst ?r then 1 else 0),
        failureCount := failureCount st + (if fst ?r then 0 else 1)\<rparr>"
    by (cases ?r) (simp add: count_result_def)
  show "successCount (processEntries eng currentDir [FileEnt name] st)
       + failureCount (processEntries eng currentDir [FileEnt name] st)
       = successCount st + failureCount st + 1"
    unfolding one by simp
  show "\<exists>e evs. trace (wld (processEntries eng currentDir [FileEnt name] st))
                  = trace (wld st) @ e # evs \<and>
         (e = Console_warn (''Skipping unsupported file type: '' @ path_join currentDir name)
          \<or> e = Call_readFile (path_join currentDir name))"
    using count_result_trace [of eng "path_join currentDir name" st] by simp
  show "processEntries eng currentDir (pre @ FileEnt name # post) st =
       processEntries eng currentDir post
         (processEntries eng currentDir [FileEnt name] (processEntries eng currentDir pre st))"
    by (simp add: processEntries_append)
  show "processEntries eng currentDir (pre @ FileEnt name # post) st =
     processEntries eng currentDir post
       (count_result
          (processFile eng (path_join currentDir name) (wld (processEntries eng currentDir pre st)))
          (processEntries eng currentDir pre st))"
    by (simp add: processEntries_append)
  show "successCount (count_result (processFile eng p (wld st1)) st1)
       = successCount st1 + (if fst (processFile eng p (wld st1)) then 1 else 0)"
    by (cases "processFile eng p (wld st1)") (simp add: count_result_def)
  show "failureCount (count_result (processFile eng p (wld st1)) st1)
       = failureCount st1 + (if fst (processFile eng p (wld st1)) then 0 else 1)"
    by (cases "processFile eng p (wld st1)") (simp add: count_result_def)
  show "wld (count_result (processFile eng p (wld st1)) st1) = snd (processFile eng p (wld st1))"
    by (cases "processFile eng p (wld st1)") (simp add: count_result_def)
  show "\<exists>e evs. trace (snd (processFile eng p w)) = trace w @ e # evs \<and>
         (e = Console_warn (''Skipping unsupported file type: '' @ p) \<or> e = Call_readFile p)"
    by (rule processFile_first_event)
qed

text \<open>\<open>.hidden.ts\<close> starts with a dot and is converted; files named \<open>.git\<close> and
  \<open>node_modules\<close>, the names of ignored directories, are passed to \<open>processFile\<close> and
  counted as failures.\<close>

theorem files_never_ignored_witness:
  "startsWith ''.hidden.ts'' ''.'' \<and> ''.git'' \<in> IGNORED_DIRS \<and> ''node_modules'' \<in> IGNORED_DIRS \<and>
   successCount (processEntries demo_engine ''proj'' [FileEnt ''.hidden.ts''] (start_walk dot_world)) = 1 \<and>
   failureCount (processEntries demo_engine ''proj'' [FileEnt ''.hidden.ts''] (start_walk dot_world)) = 0 \<and>
   files (wld (processEntries demo_engine ''proj'' [FileEnt ''.hidden.ts''] (start_walk dot_world)))
     ''proj/.hidden.js'' = Some ''let h = 1;'' \<and>
   successCount (processEntries demo_engine ''proj'' [FileEnt ''.git''] (start_walk dot_world)) = 0 \<and>
   failureCount (processEntries demo_engine ''proj'' [FileEnt ''.git''] (start_walk dot_world)) = 1 \<and>
   successCount (processEntries demo_engine ''proj'' [FileEnt ''node_modules''] (start_walk dot_world)) = 0 \<and>
   failureCount (processEntries demo_engine ''proj'' [FileEnt ''node_modules''] (start_walk dot_world)) = 1"
proof -
  have n: "startsWith ''.hidden.ts'' ''.''" "''.git'' \<in> IGNORED_DIRS" "''node_modules'' \<in> IGNORED_DIRS"
    by code_simp+
  have w0: "wld (start_walk dot_world) = dot_world" "successCount (start_walk dot_world) = 0"
    "failureCount (start_walk dot_world) = 0"
    by (simp_all add: start_walk_def)
  have r1: "fst (processFile demo_engine (path_join ''proj'' ''.hidden.ts'') dot_world) = True"
    by code_simp
  have f1: "files (snd (processFile demo_engine (path_join ''proj'' ''.hidden.ts'') dot_world))
     ''proj/.hidden.js'' = Some ''let h = 1;''"
    by code_simp
  have r2: "fst (processFile demo_engine (path_join ''proj'' ''.git'') dot_world) = False"
    by code_simp
  have r3: "fst (processFile demo_engine (path_join ''proj'' ''node_modules'') dot_world) = False"
    by code_simp
  have e1: "processEntries demo_engine ''proj'' [FileEnt ''.hidden.ts''] (start_walk dot_world) =
     (start_walk dot_world)\<lparr>wld := snd (processFile demo_engine (path_join ''proj'' ''.hidden.ts'') dot_world),
        successCount := 0 + (if True then 1 else 0), failureCount := 0 + (if True then 0 else 1)\<rparr>"
    using files_never_ignored [of demo_engine "''proj''" "''.hidden.ts''" "start_walk dot_world"]
    unfolding w0 r1 by blast
  have e2: "processEntries demo_engine ''proj'' [FileEnt ''.git''] (start_walk dot_world) =
     (start_walk dot_world)\<lparr>wld := snd (processFile demo_engine (path_join ''proj'' ''.git'') dot_world),
        successCount := 0 + (if False then 1 else 0), failureCount := 0 + (if False then 0 else 1)\<rparr>"
    using files_never_ignored [of demo_engine "''proj''" "''.git''" "start_walk dot_world"]
    unfolding w0 r2 by blast
  have e3: "processEntries demo_engine ''proj'' [FileEnt ''node_modules''] (start_walk dot_world) =
     (start_walk dot_world)\<lparr>wld := snd (processFile demo_engine (path_join ''proj'' ''node_modules'') dot_world),
        successCount := 0 + (if False then 1 else 0), failureCount := 0 + (if False then 0 else 1)\<rparr>"
    using files_never_ignored [of demo_engine "''proj''" "''node_modules''" "start_walk dot_world"]
    unfolding w0 r3 by blast
  show ?thesis
    unfolding e1 e2 e3 using n f1 by simp
qed

text \<open>Files named \<open>.git\<close> and \<open>node_modules\<close> are counted (as failures, having no
  supported extension), \<open>.hidden.ts\<close> is converted, and the directory \<open>.git\<close> is
  skipped with the file in it.\<close>

lemma dot_files_example:
  "fst (convertDirectory demo_engine ''proj''
         (Inr [FileEnt ''.git'', FileEnt ''node_modules'', FileEnt ''.hidden.ts'',
               DirEnt ''.git'' (Inr [FileEnt ''x.ts''])])
         dot_world) = (1, 2)"
  by code_simp

section \<open>The markup mode\<close>

text \<open>
  C8. The markup mode is decided by the source text alone. When the engine parses a text,
  what \<open>convertTypeScript\<close> returns is what the engine's transform gives when applied
  with \<open>isTSX\<close> true exactly if \<open>tsx\<close> occurs somewhere in the text (and printed);
  \<open>convertTypeScript\<close> is given no path. For a file with a supported extension
  (\<open>.ts\<close> or \<open>.tsx\<close> alike) that is read, the text \<open>processFile\<close> writes is the
  non-empty result of that application, and the transform is called for that text with
  that option and for no other.
\<close>

theorem markup_mode_from_source_text:
  assumes "toLowerCase (extname filePath) \<in> SUPPORTED_EXTENSIONS"
    and "\<not> names_no_file filePath" and "read_fault w filePath = None"
    and "files w filePath = Some sourceCode"
    and "recast_parse eng sourceCode = Inr ast"
  shows "fst (convertTypeScript eng sourceCode w1) =
           (case transformFromAstSync eng ast sourceCode (\<exists>u v. sourceCode = u @ ''tsx'' @ v) of
              Inl msg \<Rightarrow> None
            | Inr transformedAST \<Rightarrow>
                (case recast_print eng transformedAST of Inl msg \<Rightarrow> None | Inr code \<Rightarrow> Some code))
     \<and> (Call_writeFile q c \<in> set (new_events w (snd (processFile eng filePath w)))
          \<longleftrightarrow> q = newPath_of filePath (toLowerCase (extname filePath)) \<and> c \<noteq> [] \<and>
              (case transformFromAstSync eng ast sourceCode (\<exists>u v. sourceCode = u @ ''tsx'' @ v) of
                 Inl msg \<Rightarrow> None
               | Inr transformedAST \<Rightarrow>
                   (case recast_print eng transformedAST of Inl msg \<Rightarrow> None | Inr code \<Rightarrow> Some code))
              = Some c)
     \<and> (Call_transform s b \<in> set (new_events w (snd (processFile eng filePath w)))
          \<longleftrightarrow> s = sourceCode \<and> b = (\<exists>u v. sourceCode = u @ ''tsx'' @ v))"
proof -
  let ?out = "case transformFromAstSync eng ast sourceCode (str_includes sourceCode ''tsx'') of
              Inl msg \<Rightarrow> None
            | Inr transformedAST \<Rightarrow>
                (case recast_print eng transformedAST of Inl msg \<Rightarrow> None | Inr code \<Rightarrow> Some code)"
  have a: "fst (convertTypeScript eng sourceCode w1) = ?out"
    using assms(5) by (rule convertTypeScript_parsed)
  have cv: "converted eng sourceCode = ?out"
    unfolding converted_def using assms(5) by (rule convertTypeScript_parsed)
  have b: "Call_writeFile q c \<in> set (new_events w (snd (processFile eng filePath w)))
          \<longleftrightarrow> q = newPath_of filePath (toLowerCase (extname filePath)) \<and> c \<noteq> [] \<and> ?out = Some c"
    using processFile_write_event [OF assms(1-4), of q c eng] unfolding cv .
  obtain evs where evs: "convert_events eng sourceCode = Call_transform sourceCode (str_includes sourceCode ''tsx'') # evs"
    and none: "\<forall>t b. Call_transform t b \<notin> set evs"
    using convert_events_parsed [OF assms(5)] by blast
  have c: "Call_transform s b \<in> set (new_events w (snd (processFile eng filePath w)))
         \<longleftrightarrow> s = sourceCode \<and> b = str_includes sourceCode ''tsx''"
    using assms(1-4) none
    by (auto simp: processFile_def processFile_try_def fs_readFile_def fs_writeFile_def fs_unlink_def
      convertTypeScript_eq evs new_events_def Let_def
      split: option.splits sum.splits prod.splits if_splits)
  from a b c show ?thesis
    by (simp only: str_includes_iff simp_thms)
qed

text \<open>\<open>proj/plain.ts\<close> is a \<open>.ts\<close> file whose text has \<open>tsx\<close> in a comment: the
  engine is applied with \<open>isTSX\<close> true, and the output written shows it.\<close>

theorem markup_mode_from_source_text_witness:
  "toLowerCase (extname ''proj/plain.ts'') \<in> SUPPORTED_EXTENSIONS \<and>
   \<not> names_no_file ''proj/plain.ts'' \<and>
   read_fault markup_world ''proj/plain.ts'' = None \<and>
   files markup_world ''proj/plain.ts'' = Some ''let s = 1; // not tsx'' \<and>
   recast_parse marking_engine ''let s = 1; // not tsx'' = Inr ''let s = 1; // not tsx'' \<and>
   fst (convertTypeScript marking_engine ''let s = 1; // not tsx'' blank_world)
     = Some ''/* markup */ let s = 1; // not tsx'' \<and>
   Call_writeFile ''proj/plain.js'' ''/* markup */ let s = 1; // not tsx''
     \<in> set (new_events markup_world (snd (processFile marking_engine ''proj/plain.ts'' markup_world))) \<and>
   Call_transform ''let s = 1; // not tsx'' True
     \<in> set (new_events markup_world (snd (processFile marking_engine ''proj/plain.ts'' markup_world)))"
proof -
  let ?src = "''let s = 1; // not tsx''"
  have h1: "toLowerCase (extname ''proj/plain.ts'') \<in> SUPPORTED_EXTENSIONS"
    by code_simp
  have h2: "\<not> names_no_file ''proj/plain.ts''"
    by (simp add: names_no_file_def)
  have h3: "read_fault markup_world ''proj/plain.ts'' = None"
    by (simp add: markup_world_def blank_world_def)
  have h4: "files markup_world ''proj/plain.ts'' = Some ?src"
    by (simp add: markup_world_def blank_world_def)
  have h5: "recast_parse marking_engine ?src = Inr ?src"
    by (simp add: marking_engine_def)
  have "str_includes ?src ''tsx''"
    by code_simp
  then have ex: "(\<exists>u v. ?src = u @ ''tsx'' @ v) = True"
    by (simp only: str_includes_iff)
  have np: "newPath_of ''proj/plain.ts'' (toLowerCase (extname ''proj/plain.ts'')) = ''proj/plain.js''"
    by code_simp
  have out: "(case transformFromAstSync marking_engine ?src ?src True of
              Inl msg \<Rightarrow> None
            | Inr transformedAST \<Rightarrow>
                (case recast_print marking_engine transformedAST of
                   Inl msg \<Rightarrow> None | Inr code \<Rightarrow> Some code))
           = Some ''/* markup */ let s = 1; // not tsx''"
    by (simp add: marking_engine_def)
  note t = markup_mode_from_source_text [OF h1 h2 h3 h4 h5, unfolded ex np out]
  have a: "fst (convertTypeScript marking_engine ?src blank_world)
     = Some ''/* markup */ let s = 1; // not tsx''"
    using t by blast
  have b: "Call_writeFile ''proj/plain.js'' ''/* markup */ let s = 1; // not tsx''
     \<in> set (new_events markup_world (snd (processFile marking_engine ''proj/plain.ts'' markup_world)))"
    using t [of _ "''proj/plain.js''" "''/* markup */ let s = 1; // not tsx''"] by simp
  have c: "Call_transform ?src True
     \<in> set (new_events markup_world (snd (processFile marking_engine ''proj/plain.ts'' markup_world)))"
    using t [of _ _ _ ?src True] by blast
  from h1 h2 h3 h4 h5 a b c show ?thesis by blast
qed

end
